theory Spec2Isabelle
  imports Complex_Main "HOL-Library.Word" "HOL-Library.Multiset"
begin

section \<open>C doubles\<close>

text \<open>
  The engine computes in C \<^verbatim>\<open>double\<close>. A double is modelled as a real number or one of
  the three IEEE special values. Rounding and overflow of finite results are not modelled
  (a finite operation on finite operands is exact); division by zero, the arithmetic of
  the infinities and the propagation of NaN follow IEEE 754. Zero carries no sign: every
  zero divisor the engine can produce is a sum of squares or a product of counts.
\<close>

datatype dbl = Fin real | PInf | NInf | NaN

fun isinf :: "dbl \<Rightarrow> bool" where
  "isinf PInf = True"
| "isinf NInf = True"
| "isinf _ = False"

fun isnan :: "dbl \<Rightarrow> bool" where
  "isnan NaN = True"
| "isnan _ = False"

fun isfinite :: "dbl \<Rightarrow> bool" where
  "isfinite (Fin _) = True"
| "isfinite _ = False"

fun dneg :: "dbl \<Rightarrow> dbl" where
  "dneg (Fin a) = Fin (- a)"
| "dneg PInf = NInf"
| "dneg NInf = PInf"
| "dneg NaN = NaN"

fun dadd :: "dbl \<Rightarrow> dbl \<Rightarrow> dbl" where
  "dadd (Fin a) (Fin b) = Fin (a + b)"
| "dadd NaN _ = NaN"
| "dadd _ NaN = NaN"
| "dadd PInf NInf = NaN"
| "dadd NInf PInf = NaN"
| "dadd PInf _ = PInf"
| "dadd NInf _ = NInf"
| "dadd _ PInf = PInf"
| "dadd _ NInf = NInf"

definition dsub :: "dbl \<Rightarrow> dbl \<Rightarrow> dbl" where
  "dsub a b = dadd a (dneg b)"

text \<open>An infinity times a finite factor: NaN at zero, else the sign rule.\<close>

definition inf_times :: "bool \<Rightarrow> real \<Rightarrow> dbl" where
  "inf_times positive a =
     (if a = 0 then NaN else if (0 < a) = positive then PInf else NInf)"

fun dmul :: "dbl \<Rightarrow> dbl \<Rightarrow> dbl" where
  "dmul (Fin a) (Fin b) = Fin (a * b)"
| "dmul NaN _ = NaN"
| "dmul _ NaN = NaN"
| "dmul PInf (Fin b) = inf_times True b"
| "dmul NInf (Fin b) = inf_times False b"
| "dmul (Fin a) PInf = inf_times True a"
| "dmul (Fin a) NInf = inf_times False a"
| "dmul PInf PInf = PInf"
| "dmul NInf NInf = PInf"
| "dmul PInf NInf = NInf"
| "dmul NInf PInf = NInf"

fun ddiv :: "dbl \<Rightarrow> dbl \<Rightarrow> dbl" where
  "ddiv (Fin a) (Fin b) =
     (if b = 0 then (if a = 0 then NaN else if 0 < a then PInf else NInf)
      else Fin (a / b))"
| "ddiv NaN _ = NaN"
| "ddiv _ NaN = NaN"
| "ddiv (Fin a) PInf = Fin 0"
| "ddiv (Fin a) NInf = Fin 0"
| "ddiv PInf (Fin b) = (if 0 \<le> b then PInf else NInf)"
| "ddiv NInf (Fin b) = (if 0 \<le> b then NInf else PInf)"
| "ddiv PInf PInf = NaN"
| "ddiv PInf NInf = NaN"
| "ddiv NInf PInf = NaN"
| "ddiv NInf NInf = NaN"

text \<open>The comparison \<^verbatim>\<open>a < b\<close>: false as soon as one side is NaN.\<close>

fun dlt :: "dbl \<Rightarrow> dbl \<Rightarrow> bool" where
  "dlt (Fin a) (Fin b) = (a < b)"
| "dlt NaN _ = False"
| "dlt _ NaN = False"
| "dlt NInf NInf = False"
| "dlt NInf _ = True"
| "dlt PInf _ = False"
| "dlt (Fin a) PInf = True"
| "dlt (Fin a) NInf = False"

fun fabs :: "dbl \<Rightarrow> dbl" where
  "fabs (Fin a) = Fin \<bar>a\<bar>"
| "fabs PInf = PInf"
| "fabs NInf = PInf"
| "fabs NaN = NaN"

fun dexp :: "dbl \<Rightarrow> dbl" where
  "dexp (Fin a) = Fin (exp a)"
| "dexp PInf = PInf"
| "dexp NInf = Fin 0"
| "dexp NaN = NaN"

fun dsqrt :: "dbl \<Rightarrow> dbl" where
  "dsqrt (Fin a) = (if a < 0 then NaN else Fin (sqrt a))"
| "dsqrt PInf = PInf"
| "dsqrt NInf = NaN"
| "dsqrt NaN = NaN"

text \<open>The macro \<^verbatim>\<open>MAX(a, b)\<close> of utils.h, \<^verbatim>\<open>((a) > (b) ? (a) : (b))\<close>.\<close>

definition MAX_d :: "dbl \<Rightarrow> dbl \<Rightarrow> dbl" where
  "MAX_d a b = (if dlt b a then a else b)"

text \<open>The mathematical sign as a double: \<open>-1\<close>, \<open>0\<close> or \<open>1\<close>.\<close>

fun dsign :: "dbl \<Rightarrow> dbl" where
  "dsign (Fin a) = Fin (sgn a)"
| "dsign PInf = Fin 1"
| "dsign NInf = Fin (- 1)"
| "dsign NaN = NaN"

type_synonym u32 = "32 word"

section \<open>Faults\<close>

text \<open>
  What ends a run of the C program abnormally is a value of the model: a failed
  \<^verbatim>\<open>assert\<close>, a read or a removal outside an array (undefined behaviour in C), and
  the end of the finite list of pseudo-random draws a run of the model is given.
\<close>

datatype fault = Assert_failed | Out_of_bounds | Prng_exhausted

type_synonym 'a res = "fault + 'a"

section \<open>The graph store (digraph.h)\<close>

type_synonym arc = "nat \<times> nat"

text \<open>
  The struct of digraph.h with the snowball-zone and citation-term fields that
  ifdSampler.c reads. Counters the code increments and decrements are 32-bit unsigned
  words (\<^verbatim>\<open>uint_t\<close>); node numbers, zones and terms are naturals. Arrays indexed by a
  node are functions of the node; the flat arc lists and node lists, which the sampler
  indexes by a random number, are lists and every read of them is bounds-checked. The
  two-path matrices are functions of the ordered pair. Node attributes are read by the
  change statistics only and stay inside those functions.
\<close>

record graph =
  num_nodes :: nat
  num_arcs :: u32
  outdegree :: "nat \<Rightarrow> u32"
  arclist :: "nat \<Rightarrow> nat list"
  indegree :: "nat \<Rightarrow> u32"
  revarclist :: "nat \<Rightarrow> nat list"
  allarcs :: "arc list"
  mixTwoPathMatrix :: "arc \<Rightarrow> u32"
  inTwoPathMatrix :: "arc \<Rightarrow> u32"
  outTwoPathMatrix :: "arc \<Rightarrow> u32"
  zone :: "nat \<Rightarrow> nat"
  max_zone :: nat
  num_inner_nodes :: nat
  inner_nodes :: "nat list"
  num_inner_arcs :: u32
  allinnerarcs :: "arc list"
  prev_wave_degree :: "nat \<Rightarrow> u32"
  node_term :: "nat \<Rightarrow> nat"
  max_term :: nat
  num_maxterm_nodes :: nat
  maxterm_nodes :: "nat list"
  num_maxtermsender_arcs :: u32
  all_maxtermsender_arcs :: "arc list"

text \<open>
  Modelled from the spec: the bodies of \<^verbatim>\<open>isArc\<close>, \<^verbatim>\<open>insertArc\<close>, \<^verbatim>\<open>removeArc\<close>,
  \<^verbatim>\<open>updateTwoPathsMatrices\<close> and of the list-maintaining variants the sampler calls
  are not among the sources (digraph.h declares them). Section 4.1 of the specification
  gives their contract: \<^verbatim>\<open>isArc\<close> is true iff the arc is present; insertion and removal
  update the neighbour lists, the degrees, the arc count and the two-path counters; the
  counters change by a delta over the neighbours of the two end points, computed while the
  arc itself is absent (before it is added, after it is removed), negated on removal; a
  flat arc list loses an entry by overwriting it with the last one and gains one at its
  end. Removing an arc that is not in the neighbour lists runs the C scan off the array:
  the model returns \<open>Out_of_bounds\<close>.
\<close>

definition isArc :: "graph \<Rightarrow> nat \<Rightarrow> nat \<Rightarrow> bool" where
  "isArc g i j = (j \<in> set (arclist g i))"

definition bump :: "(arc \<Rightarrow> u32) \<Rightarrow> u32 \<Rightarrow> arc list \<Rightarrow> (arc \<Rightarrow> u32)" where
  "bump m d ps = fold (\<lambda>p m'. m'(p := m' p + d)) ps m"

definition updateTwoPathsMatrices :: "graph \<Rightarrow> nat \<Rightarrow> nat \<Rightarrow> bool \<Rightarrow> graph" where
  "updateTwoPathsMatrices g i j isAdd =
     (let incval = (if isAdd then 1 else - 1) in
      g\<lparr>mixTwoPathMatrix :=
          bump (mixTwoPathMatrix g) incval
            (map (\<lambda>k. (i, k)) (arclist g j) @ map (\<lambda>k. (k, j)) (revarclist g i)),
        inTwoPathMatrix :=
          bump (inTwoPathMatrix g) incval
            (concat (map (\<lambda>k. [(k, j), (j, k)]) (arclist g i))),
        outTwoPathMatrix :=
          bump (outTwoPathMatrix g) incval
            (concat (map (\<lambda>k. [(k, i), (i, k)]) (revarclist g j)))\<rparr>)"

definition insertArc :: "graph \<Rightarrow> nat \<Rightarrow> nat \<Rightarrow> graph" where
  "insertArc g i j =
     (let g1 = updateTwoPathsMatrices g i j True;
          g2 = g1\<lparr>arclist := (arclist g1)(i := arclist g1 i @ [j]),
                  outdegree := (outdegree g1)(i := outdegree g1 i + 1)\<rparr>
      in g2\<lparr>revarclist := (revarclist g2)(j := revarclist g2 j @ [i]),
             indegree := (indegree g2)(j := indegree g2 j + 1),
             num_arcs := num_arcs g2 + 1\<rparr>)"

definition removeArc :: "graph \<Rightarrow> nat \<Rightarrow> nat \<Rightarrow> graph res" where
  "removeArc g i j =
     (if j \<notin> set (arclist g i) \<or> i \<notin> set (revarclist g j) then Inl Out_of_bounds
      else
        let g1 = g\<lparr>arclist := (arclist g)(i := remove1 j (arclist g i)),
                   outdegree := (outdegree g)(i := outdegree g i - 1)\<rparr>;
            g2 = g1\<lparr>revarclist := (revarclist g1)(j := remove1 i (revarclist g1 j)),
                    indegree := (indegree g1)(j := indegree g1 j - 1),
                    num_arcs := num_arcs g1 - 1\<rparr>
        in Inr (updateTwoPathsMatrices g2 i j False))"

text \<open>Overwrite entry \<open>arcidx\<close> of a flat arc list with the last entry and drop the last.\<close>

definition swap_remove :: "arc list \<Rightarrow> nat \<Rightarrow> arc list" where
  "swap_remove xs arcidx = butlast (xs[arcidx := last xs])"

definition insertArc_allarcs :: "graph \<Rightarrow> nat \<Rightarrow> nat \<Rightarrow> graph" where
  "insertArc_allarcs g i j = (insertArc g i j)\<lparr>allarcs := allarcs g @ [(i, j)]\<rparr>"

definition removeArc_allarcs :: "graph \<Rightarrow> nat \<Rightarrow> nat \<Rightarrow> nat \<Rightarrow> graph res" where
  "removeArc_allarcs g i j arcidx =
     (case removeArc g i j of
        Inl e \<Rightarrow> Inl e
      | Inr g1 \<Rightarrow>
          if length (allarcs g) \<le> arcidx then Inl Out_of_bounds
          else Inr (g1\<lparr>allarcs := swap_remove (allarcs g) arcidx\<rparr>))"

text \<open>
  The snowball variant keeps \<open>allinnerarcs\<close>, its count and \<open>prev_wave_degree\<close>: the
  end point in the later zone gains or loses a tie to its preceding wave.
\<close>

definition wave_degree_update :: "graph \<Rightarrow> nat \<Rightarrow> nat \<Rightarrow> u32 \<Rightarrow> (nat \<Rightarrow> u32)" where
  "wave_degree_update g i j d =
     (if zone g j < zone g i then (prev_wave_degree g)(i := prev_wave_degree g i + d)
      else if zone g i < zone g j then (prev_wave_degree g)(j := prev_wave_degree g j + d)
      else prev_wave_degree g)"

definition insertArc_allinnerarcs :: "graph \<Rightarrow> nat \<Rightarrow> nat \<Rightarrow> graph" where
  "insertArc_allinnerarcs g i j =
     (insertArc g i j)\<lparr>num_inner_arcs := num_inner_arcs g + 1,
                       allinnerarcs := allinnerarcs g @ [(i, j)],
                       prev_wave_degree := wave_degree_update g i j 1\<rparr>"

definition removeArc_allinnerarcs :: "graph \<Rightarrow> nat \<Rightarrow> nat \<Rightarrow> nat \<Rightarrow> graph res" where
  "removeArc_allinnerarcs g i j arcidx =
     (case removeArc g i j of
        Inl e \<Rightarrow> Inl e
      | Inr g1 \<Rightarrow>
          if length (allinnerarcs g) \<le> arcidx then Inl Out_of_bounds
          else Inr (g1\<lparr>num_inner_arcs := num_inner_arcs g - 1,
                        allinnerarcs := swap_remove (allinnerarcs g) arcidx,
                        prev_wave_degree := wave_degree_update g i j (- 1)\<rparr>))"

definition insertArc_all_maxtermsender_arcs :: "graph \<Rightarrow> nat \<Rightarrow> nat \<Rightarrow> graph" where
  "insertArc_all_maxtermsender_arcs g i j =
     (insertArc g i j)\<lparr>num_maxtermsender_arcs := num_maxtermsender_arcs g + 1,
                       all_maxtermsender_arcs := all_maxtermsender_arcs g @ [(i, j)]\<rparr>"

definition removeArc_all_maxtermsender_arcs ::
    "graph \<Rightarrow> nat \<Rightarrow> nat \<Rightarrow> nat \<Rightarrow> graph res" where
  "removeArc_all_maxtermsender_arcs g i j arcidx =
     (case removeArc g i j of
        Inl e \<Rightarrow> Inl e
      | Inr g1 \<Rightarrow>
          if length (all_maxtermsender_arcs g) \<le> arcidx then Inl Out_of_bounds
          else Inr (g1\<lparr>num_maxtermsender_arcs := num_maxtermsender_arcs g - 1,
                        all_maxtermsender_arcs :=
                          swap_remove (all_maxtermsender_arcs g) arcidx\<rparr>))"

section \<open>Change statistics (changeStatisticsDirected.h)\<close>

text \<open>
  A change statistic is a function of the graph and the candidate arc. The four arrays of
  function pointers with their lambda values and attribute indices are one list in the
  order of \<open>theta\<close>, each entry already applied to its own extra arguments.

  Modelled from the spec: the body of \<^verbatim>\<open>calcChangeStats\<close> is not among the sources.
  Section 4.2: it writes each position's change statistic for adding the arc, negated
  for a delete move, to the output array and returns the sum of \<open>theta[l]\<close> times that
  value.
\<close>

type_synonym change_stats_func = "graph \<Rightarrow> nat \<Rightarrow> nat \<Rightarrow> dbl"

definition calcChangeStats ::
    "graph \<Rightarrow> nat \<Rightarrow> nat \<Rightarrow> nat \<Rightarrow> change_stats_func list \<Rightarrow> dbl list \<Rightarrow> bool
      \<Rightarrow> dbl \<times> dbl list" where
  "calcChangeStats g i j n funcs theta isDel =
     (let changestats =
            map (\<lambda>l. if isDel then dneg ((funcs ! l) g i j) else (funcs ! l) g i j) [0..<n]
      in (foldl dadd (Fin 0) (map (\<lambda>l. dmul (theta ! l) (changestats ! l)) [0..<n]),
          changestats))"

section \<open>The pseudo-random number generator (utils.h)\<close>

text \<open>
  Modelled from the spec: \<^verbatim>\<open>urand\<close> and \<^verbatim>\<open>int_urand\<close> are not among the sources. The
  process-wide generator is the list of the uniform draws from \<open>[0, 1)\<close> it will deliver.
  \<^verbatim>\<open>urand()\<close> takes the next draw \<open>u\<close>; \<^verbatim>\<open>int_urand(n)\<close> takes the next draw and returns
  the index \<open>\<lfloor>u * n\<rfloor>\<close>, uniform over \<open>0 .. n - 1\<close>. A run that asks for more draws than
  the list holds ends in \<open>Prng_exhausted\<close>; this is how a rejection loop that never finds
  a candidate shows in the model.
\<close>

definition int_urand :: "nat \<Rightarrow> real \<Rightarrow> nat" where
  "int_urand n u = nat \<lfloor>u * real n\<rfloor>"

section \<open>The IFD sampler (ifdSampler.c)\<close>

text \<open>
  The lines the program writes that the claims speak of: on standard error the warnings
  and errors, on standard output the announcements of the phases.
\<close>

datatype stderr_msg =
    Warning_num_maxtermsender_arcs_zero
  | Warning_IFD_imbalance
  | Warning_D0_is_NaN nat
  | Error_Arc_with_IFD_sampler
  | Error_other

datatype stdout_msg = Running_Algorithm_S | Running_Algorithm_EE | Running_simulation

text \<open>
  What a call of the sampler reads and changes outside its own frame: the graph, the
  \<^verbatim>\<open>static bool isDelete\<close> of \<^verbatim>\<open>ifdSampler\<close> (one per process, \<^verbatim>\<open>FALSE\<close> at program
  start), the generator, and the two output streams.
\<close>

record process =
  isDelete :: bool
  prng :: "real list"
  warnings :: "stderr_msg list"
  printed :: "stdout_msg list"

record world = process +
  w_graph :: graph

record sampler_opts =
  useConditionalEstimation :: bool
  forbidReciprocity :: bool
  citationERGM :: bool
  allowLoops :: bool

text \<open>
  The rejection loops that look for a candidate. Each consumes draws until its exit
  condition holds. The nested \<^verbatim>\<open>do ... while\<close> loops of an add move are one function with
  the node \<open>i\<close> drawn so far as its state: \<open>None\<close> before \<open>i\<close> is drawn, \<open>Some i\<close> while
  the inner loop draws \<open>j\<close>.
\<close>

fun cond_delete_pick :: "graph \<Rightarrow> real list \<Rightarrow> (nat \<times> nat \<times> nat \<times> real list) res" where
  "cond_delete_pick g [] = Inl Prng_exhausted"
| "cond_delete_pick g (u # us) =
     (let arcidx = int_urand (unat (num_inner_arcs g)) u in
      if length (allinnerarcs g) \<le> arcidx then Inl Out_of_bounds
      else
        let i = fst (allinnerarcs g ! arcidx); j = snd (allinnerarcs g ! arcidx) in
        if \<not> (zone g i < max_zone g \<and> zone g j < max_zone g) then Inl Assert_failed
        else if \<not> (\<bar>int (zone g i) - int (zone g j)\<bar> \<le> 1) then Inl Assert_failed
        else if (zone g j < zone g i \<and> prev_wave_degree g i = 1) \<or>
                (zone g i < zone g j \<and> prev_wave_degree g j = 1)
        then cond_delete_pick g us
        else Inr (arcidx, i, j, us))"

fun cond_add_pick :: "graph \<Rightarrow> nat option \<Rightarrow> real list \<Rightarrow> (nat \<times> nat \<times> real list) res" where
  "cond_add_pick g st [] = Inl Prng_exhausted"
| "cond_add_pick g None (u # us) =
     (let k = int_urand (num_inner_nodes g) u in
      if length (inner_nodes g) \<le> k then Inl Out_of_bounds
      else cond_add_pick g (Some (inner_nodes g ! k)) us)"
| "cond_add_pick g (Some i) (u # us) =
     (let k = int_urand (num_inner_nodes g) u in
      if length (inner_nodes g) \<le> k then Inl Out_of_bounds
      else
        let j = inner_nodes g ! k in
        if i = j then cond_add_pick g (Some i) us
        else if \<not> (zone g i < max_zone g \<and> zone g j < max_zone g) then Inl Assert_failed
        else if isArc g i j \<or> 1 < \<bar>int (zone g i) - int (zone g j)\<bar>
        then cond_add_pick g None us
        else Inr (i, j, us))"

fun citation_add_pick :: "graph \<Rightarrow> nat option \<Rightarrow> real list \<Rightarrow> (nat \<times> nat \<times> real list) res" where
  "citation_add_pick g st [] = Inl Prng_exhausted"
| "citation_add_pick g None (u # us) =
     (let k = int_urand (num_maxterm_nodes g) u in
      if length (maxterm_nodes g) \<le> k then Inl Out_of_bounds
      else citation_add_pick g (Some (maxterm_nodes g ! k)) us)"
| "citation_add_pick g (Some i) (u # us) =
     (let j = int_urand (num_nodes g) u in
      if i = j then citation_add_pick g (Some i) us
      else if \<not> (node_term g i = max_term g \<and> node_term g j \<le> max_term g)
      then Inl Assert_failed
      else if isArc g i j then citation_add_pick g None us
      else Inr (i, j, us))"

fun plain_add_pick ::
    "graph \<Rightarrow> bool \<Rightarrow> bool \<Rightarrow> nat option \<Rightarrow> real list \<Rightarrow> (nat \<times> nat \<times> real list) res" where
  "plain_add_pick g loops norecip st [] = Inl Prng_exhausted"
| "plain_add_pick g loops norecip None (u # us) =
     plain_add_pick g loops norecip (Some (int_urand (num_nodes g) u)) us"
| "plain_add_pick g loops norecip (Some i) (u # us) =
     (let j = int_urand (num_nodes g) u in
      if \<not> loops \<and> i = j then plain_add_pick g loops norecip (Some i) us
      else if isArc g i j then plain_add_pick g loops norecip None us
      else if norecip \<and> isArc g j i then plain_add_pick g loops norecip None us
      else Inr (i, j, us))"

text \<open>
  The first part of the loop body: choose the candidate arc under the active regime.
  The result is \<open>(arcidx, i, j)\<close> and the world after the draws; in the citation regime
  the static flag may have been forced to an add move, with a warning.
\<close>

definition ifd_select :: "sampler_opts \<Rightarrow> world \<Rightarrow> (nat \<times> nat \<times> nat \<times> world) res" where
  "ifd_select opts w =
     (let g = w_graph w in
      if useConditionalEstimation opts then
        if forbidReciprocity opts then Inl Assert_failed
        else if allowLoops opts then Inl Assert_failed
        else if isDelete w then
          (case cond_delete_pick g (prng w) of
             Inl e \<Rightarrow> Inl e
           | Inr (arcidx, i, j, us) \<Rightarrow> Inr (arcidx, i, j, w\<lparr>prng := us\<rparr>))
        else
          (case cond_add_pick g None (prng w) of
             Inl e \<Rightarrow> Inl e
           | Inr (i, j, us) \<Rightarrow> Inr (0, i, j, w\<lparr>prng := us\<rparr>))
      else if citationERGM opts then
        if forbidReciprocity opts then Inl Assert_failed
        else if allowLoops opts then Inl Assert_failed
        else
          let w1 = (if isDelete w \<and> num_maxtermsender_arcs g = 0
                    then w\<lparr>isDelete := False,
                           warnings := warnings w @ [Warning_num_maxtermsender_arcs_zero]\<rparr>
                    else w)
          in
          if isDelete w1 then
            (case prng w1 of
               [] \<Rightarrow> Inl Prng_exhausted
             | u # us \<Rightarrow>
                 let arcidx = int_urand (unat (num_maxtermsender_arcs g)) u in
                 if length (all_maxtermsender_arcs g) \<le> arcidx then Inl Out_of_bounds
                 else
                   let i = fst (all_maxtermsender_arcs g ! arcidx);
                       j = snd (all_maxtermsender_arcs g ! arcidx)
                   in
                   if \<not> (node_term g i = max_term g \<and> node_term g j \<le> max_term g)
                   then Inl Assert_failed
                   else Inr (arcidx, i, j, w1\<lparr>prng := us\<rparr>))
          else
            (case citation_add_pick g None (prng w1) of
               Inl e \<Rightarrow> Inl e
             | Inr (i, j, us) \<Rightarrow> Inr (0, i, j, w1\<lparr>prng := us\<rparr>))
      else if isDelete w then
        (case prng w of
           [] \<Rightarrow> Inl Prng_exhausted
         | u # us \<Rightarrow>
             let arcidx = int_urand (unat (num_arcs g)) u in
             if length (allarcs g) \<le> arcidx then Inl Out_of_bounds
             else Inr (arcidx, fst (allarcs g ! arcidx), snd (allarcs g ! arcidx),
                       w\<lparr>prng := us\<rparr>))
      else
        (case plain_add_pick g (allowLoops opts) (forbidReciprocity opts) None (prng w) of
           Inl e \<Rightarrow> Inl e
         | Inr (i, j, us) \<Rightarrow> Inr (0, i, j, w\<lparr>prng := us\<rparr>)))"

text \<open>The insertion and the removal of the active regime.\<close>

definition insert_active :: "sampler_opts \<Rightarrow> graph \<Rightarrow> nat \<Rightarrow> nat \<Rightarrow> graph" where
  "insert_active opts g i j =
     (if useConditionalEstimation opts then insertArc_allinnerarcs g i j
      else if citationERGM opts then insertArc_all_maxtermsender_arcs g i j
      else insertArc_allarcs g i j)"

definition remove_active :: "sampler_opts \<Rightarrow> graph \<Rightarrow> nat \<Rightarrow> nat \<Rightarrow> nat \<Rightarrow> graph res" where
  "remove_active opts g i j arcidx =
     (if useConditionalEstimation opts then removeArc_allinnerarcs g i j arcidx
      else if citationERGM opts then removeArc_all_maxtermsender_arcs g i j arcidx
      else removeArc_allarcs g i j arcidx)"

text \<open>
  One proposal: the loop body of \<^verbatim>\<open>ifdSampler\<close> as far as it touches the world. It
  reports the kind of move proposed, whether it was accepted, and the change statistics.
\<close>

record proposal =
  del_move :: bool
  was_accepted :: bool
  changestats :: "dbl list"

definition ifd_proposal ::
    "sampler_opts \<Rightarrow> nat \<Rightarrow> change_stats_func list \<Rightarrow> dbl list \<Rightarrow> dbl \<Rightarrow> bool \<Rightarrow> world
      \<Rightarrow> (proposal \<times> world) res" where
  "ifd_proposal opts n funcs theta aux performMove w =
     (case ifd_select opts w of
        Inl e \<Rightarrow> Inl e
      | Inr (arcidx, i, j, w1) \<Rightarrow>
          (case (if isDelete w1 then remove_active opts (w_graph w1) i j arcidx
                 else Inr (w_graph w1)) of
             Inl e \<Rightarrow> Inl e
           | Inr g1 \<Rightarrow>
               let (total0, cs) = calcChangeStats g1 i j n funcs theta (isDelete w1);
                   total = dadd total0 (dmul (Fin (if isDelete w1 then - 1 else 1)) aux)
               in
               (case prng w1 of
                  [] \<Rightarrow> Inl Prng_exhausted
                | u # us \<Rightarrow>
                    if dlt (Fin u) (dexp total) then
                      let g2 = (if performMove
                                then (if \<not> isDelete w1 then insert_active opts g1 i j else g1)
                                else (if isDelete w1 then insert_active opts g1 i j else g1))
                      in Inr (\<lparr>del_move = isDelete w1, was_accepted = True, changestats = cs\<rparr>,
                              w1\<lparr>w_graph := g2, isDelete := \<not> isDelete w1, prng := us\<rparr>)
                    else
                      let g2 = (if isDelete w1 then insert_active opts g1 i j else g1)
                      in Inr (\<lparr>del_move = isDelete w1, was_accepted = False, changestats = cs\<rparr>,
                              w1\<lparr>w_graph := g2, prng := us\<rparr>))))"

text \<open>
  The locals of a call. \<open>Ndel\<close> and \<open>Nadd\<close> are C \<^verbatim>\<open>int\<close>, \<open>accepted\<close> is \<^verbatim>\<open>uint_t\<close>:
  32-bit words, read signed by \<open>sint\<close> and unsigned by \<open>unat\<close>; arithmetic on them wraps.
\<close>

record ifd_locals =
  addChangeStats :: "dbl list"
  delChangeStats :: "dbl list"
  accepted :: u32
  Ndel :: u32
  Nadd :: u32

definition accumulate :: "nat \<Rightarrow> dbl list \<Rightarrow> dbl list \<Rightarrow> dbl list" where
  "accumulate n acc cs = map (\<lambda>l. dadd (acc ! l) (cs ! l)) [0..<n]"

text \<open>What one proposal does to the locals.\<close>

definition tally :: "nat \<Rightarrow> ifd_locals \<Rightarrow> proposal \<Rightarrow> ifd_locals" where
  "tally n loc p =
     (let loc1 = (if del_move p then loc\<lparr>Ndel := Ndel loc + 1\<rparr>
                  else loc\<lparr>Nadd := Nadd loc + 1\<rparr>)
      in if was_accepted p then
           (if del_move p
            then loc1\<lparr>accepted := accepted loc1 + 1,
                      delChangeStats := accumulate n (delChangeStats loc1) (changestats p)\<rparr>
            else loc1\<lparr>accepted := accepted loc1 + 1,
                      addChangeStats := accumulate n (addChangeStats loc1) (changestats p)\<rparr>)
         else loc1)"

definition ifd_iteration ::
    "sampler_opts \<Rightarrow> nat \<Rightarrow> change_stats_func list \<Rightarrow> dbl list \<Rightarrow> dbl \<Rightarrow> bool
      \<Rightarrow> world \<times> ifd_locals \<Rightarrow> (world \<times> ifd_locals) res" where
  "ifd_iteration opts n funcs theta aux performMove st =
     (case ifd_proposal opts n funcs theta aux performMove (fst st) of
        Inl e \<Rightarrow> Inl e
      | Inr (p, w') \<Rightarrow> Inr (w', tally n (snd st) p))"

fun ifd_loop ::
    "sampler_opts \<Rightarrow> nat \<Rightarrow> change_stats_func list \<Rightarrow> dbl list \<Rightarrow> dbl \<Rightarrow> bool \<Rightarrow> nat
      \<Rightarrow> world \<times> ifd_locals \<Rightarrow> (world \<times> ifd_locals) res" where
  "ifd_loop opts n funcs theta aux performMove 0 st = Inr st"
| "ifd_loop opts n funcs theta aux performMove (Suc k) st =
     (case ifd_iteration opts n funcs theta aux performMove st of
        Inl e \<Rightarrow> Inl e
      | Inr st' \<Rightarrow> ifd_loop opts n funcs theta aux performMove k st')"

text \<open>The code after the loop: the step of the auxiliary parameter and its warning.\<close>

definition dbl_of_int :: "u32 \<Rightarrow> dbl" where
  "dbl_of_int x = Fin (real_of_int (sint x))"

definition ifd_aux_param_step :: "dbl \<Rightarrow> u32 \<Rightarrow> u32 \<Rightarrow> dbl" where
  "ifd_aux_param_step ifd_K nd na =
     ddiv (dmul (dmul ifd_K (dbl_of_int (nd - na))) (dbl_of_int (nd - na)))
          (dbl_of_int ((nd + na) * (nd + na)))"

definition ifd_aux_update :: "dbl \<Rightarrow> dbl \<Rightarrow> u32 \<Rightarrow> u32 \<Rightarrow> dbl" where
  "ifd_aux_update ifd_K aux nd na =
     (if 0 < sint (nd - na) then dsub aux (ifd_aux_param_step ifd_K nd na)
      else if sint (nd - na) < 0 then dadd aux (ifd_aux_param_step ifd_K nd na)
      else aux)"

definition ifd_imbalance :: "u32 \<Rightarrow> u32 \<Rightarrow> bool" where
  "ifd_imbalance nd na =
     dlt (Fin (8 / 10)) (ddiv (Fin (real_of_int \<bar>sint (nd - na)\<bar>)) (dbl_of_int (nd + na)))"

text \<open>
  What a sampler hands back: its return value, the two output arrays and the world; the
  IFD sampler also writes \<^verbatim>\<open>*dzArc\<close> and \<^verbatim>\<open>*ifd_aux_param\<close>.
\<close>

record sampler_result =
  acceptance_rate :: dbl
  add_out :: "dbl list"
  del_out :: "dbl list"
  world_out :: world

record ifd_result = sampler_result +
  dzArc :: dbl
  aux_out :: dbl

definition ifdSampler ::
    "sampler_opts \<Rightarrow> nat \<Rightarrow> change_stats_func list \<Rightarrow> dbl list \<Rightarrow> nat \<Rightarrow> bool \<Rightarrow> dbl \<Rightarrow> dbl
      \<Rightarrow> world \<Rightarrow> ifd_result res" where
  "ifdSampler opts n funcs theta sampler_m performMove ifd_K ifd_aux_param w =
     (case ifd_loop opts n funcs theta ifd_aux_param performMove sampler_m
             (w, \<lparr>addChangeStats = replicate n (Fin 0), delChangeStats = replicate n (Fin 0),
                  accepted = 0, Ndel = 0, Nadd = 0\<rparr>) of
        Inl e \<Rightarrow> Inl e
      | Inr (w', loc) \<Rightarrow>
          Inr \<lparr>acceptance_rate = ddiv (Fin (real (unat (accepted loc)))) (Fin (real sampler_m)),
               add_out = addChangeStats loc,
               del_out = delChangeStats loc,
               world_out =
                 (if ifd_imbalance (Ndel loc) (Nadd loc)
                  then w'\<lparr>warnings := warnings w' @ [Warning_IFD_imbalance]\<rparr> else w'),
               dzArc = dsub (dbl_of_int (Ndel loc)) (dbl_of_int (Nadd loc)),
               aux_out = ifd_aux_update ifd_K ifd_aux_param (Ndel loc) (Nadd loc)\<rparr>)"

section \<open>Algorithm S and Algorithm EE (equilibriumExpectation.c)\<close>

text \<open>
  \<^verbatim>\<open>basicSampler\<close> and \<^verbatim>\<open>mean_and_sd\<close> are not among the sources; the algorithms take them
  as parameters. The trajectory files are not modelled: no claim reads them and nothing
  the algorithms compute depends on them.
\<close>

type_synonym basic_sampler =
  "sampler_opts \<Rightarrow> nat \<Rightarrow> change_stats_func list \<Rightarrow> dbl list \<Rightarrow> nat \<Rightarrow> bool \<Rightarrow> world
    \<Rightarrow> sampler_result res"

text \<open>
  The call of the active sampler, as both algorithms make it. The result carries the
  auxiliary parameter after the call (unchanged by the basic sampler).
\<close>

definition call_sampler ::
    "basic_sampler \<Rightarrow> bool \<Rightarrow> sampler_opts \<Rightarrow> nat \<Rightarrow> change_stats_func list \<Rightarrow> dbl list \<Rightarrow> nat
      \<Rightarrow> bool \<Rightarrow> dbl \<Rightarrow> dbl \<Rightarrow> world \<Rightarrow> ifd_result res" where
  "call_sampler basicSampler useIFDsampler opts n funcs theta sampler_m performMove ifd_K aux w =
     (if useIFDsampler then ifdSampler opts n funcs theta sampler_m performMove ifd_K aux w
      else
        (case basicSampler opts n funcs theta sampler_m performMove w of
           Inl e \<Rightarrow> Inl e
         | Inr r \<Rightarrow>
             Inr \<lparr>acceptance_rate = acceptance_rate r, add_out = add_out r,
                  del_out = del_out r, world_out = world_out r,
                  dzArc = Fin 0, aux_out = aux\<rparr>))"

text \<open>The loop over the positions \<open>l\<close> inside one iteration of Algorithm S.\<close>

fun algS_positions ::
    "dbl \<Rightarrow> dbl list \<Rightarrow> dbl list \<Rightarrow> nat list \<Rightarrow> dbl list \<times> dbl list \<Rightarrow> dbl list \<times> dbl list" where
  "algS_positions ACA adds dels [] (theta, D0) = (theta, D0)"
| "algS_positions ACA adds dels (l # ls) (theta, D0) =
     (let dzA = dsub (dels ! l) (adds ! l);
          sumChangeStats = dadd (adds ! l) (dels ! l);
          D0' = D0[l := dadd (D0 ! l) (dmul dzA dzA)];
          da = (if dlt sumChangeStats (Fin 0) \<or> dlt (Fin 0) sumChangeStats
                then ddiv ACA (dmul sumChangeStats sumChangeStats) else Fin 0);
          theta_step = dmul (dmul (dmul (Fin (if dlt dzA (Fin 0) then - 1 else 1)) da) dzA) dzA
      in algS_positions ACA adds dels ls (theta[l := dadd (theta ! l) theta_step], D0'))"

record algS_state =
  s_theta :: "dbl list"
  s_D0 :: "dbl list"
  s_aux :: dbl
  s_world :: world

fun algS_loop ::
    "basic_sampler \<Rightarrow> bool \<Rightarrow> sampler_opts \<Rightarrow> nat \<Rightarrow> change_stats_func list \<Rightarrow> nat \<Rightarrow> dbl \<Rightarrow> dbl
      \<Rightarrow> nat \<Rightarrow> algS_state \<Rightarrow> algS_state res" where
  "algS_loop basicSampler useIFD opts n funcs sampler_m ACA ifd_K 0 st = Inr st"
| "algS_loop basicSampler useIFD opts n funcs sampler_m ACA ifd_K (Suc k) st =
     (case call_sampler basicSampler useIFD opts n funcs (s_theta st) sampler_m False ifd_K
             (s_aux st) (s_world st) of
        Inl e \<Rightarrow> Inl e
      | Inr r \<Rightarrow>
          let (theta', D0') =
                algS_positions ACA (add_out r) (del_out r) [0..<n] (s_theta st, s_D0 st)
          in algS_loop basicSampler useIFD opts n funcs sampler_m ACA ifd_K k
               \<lparr>s_theta = theta', s_D0 = D0', s_aux = aux_out r, s_world = world_out r\<rparr>)"

text \<open>\<^verbatim>\<open>algorithm_S\<close> returns \<open>(theta, Dmean)\<close> and the world.\<close>

definition algorithm_S ::
    "basic_sampler \<Rightarrow> world \<Rightarrow> nat \<Rightarrow> change_stats_func list \<Rightarrow> nat \<Rightarrow> nat \<Rightarrow> dbl \<Rightarrow> bool \<Rightarrow> dbl
      \<Rightarrow> sampler_opts \<Rightarrow> (dbl list \<times> dbl list \<times> world) res" where
  "algorithm_S basicSampler w n funcs M1 sampler_m ACA useIFDsampler ifd_K opts =
     (case algS_loop basicSampler useIFDsampler opts n funcs sampler_m ACA ifd_K M1
             \<lparr>s_theta = replicate n (Fin 0), s_D0 = replicate n (Fin 0), s_aux = Fin 0,
              s_world = w\<rparr> of
        Inl e \<Rightarrow> Inl e
      | Inr st \<Rightarrow>
          Inr (s_theta st,
               map (\<lambda>l. ddiv (Fin (real sampler_m)) (s_D0 st ! l)) [0..<n],
               s_world st))"

text \<open>The parameters of Algorithm EE that stay fixed during a run.\<close>

record ee_params =
  ACA_EE :: dbl
  compC :: dbl
  useBorisenkoUpdate :: bool
  learningRate :: dbl
  minTheta :: dbl

record algEE_state =
  e_theta :: "dbl list"
  e_dzA :: "dbl list"
  e_D0 :: "dbl list"
  e_thetamatrix :: "dbl list list"
  e_aux :: dbl
  e_world :: world

text \<open>The loop over the positions \<open>l\<close> inside one inner iteration of Algorithm EE.\<close>

fun algEE_positions ::
    "ee_params \<Rightarrow> dbl list \<Rightarrow> dbl list \<Rightarrow> nat \<Rightarrow> nat list \<Rightarrow> algEE_state \<Rightarrow> algEE_state" where
  "algEE_positions ps adds dels tinner [] st = st"
| "algEE_positions ps adds dels tinner (l # ls) st =
     (let dzA = dadd (e_dzA st ! l) (dsub (adds ! l) (dels ! l));
          theta_step =
            (if useBorisenkoUpdate ps
             then dmul (dmul (Fin (if dlt dzA (Fin 0) then 1 else - 1)) (learningRate ps))
                       (MAX_d (fabs (e_theta st ! l)) (minTheta ps))
             else dmul (dmul (dmul (Fin (if dlt dzA (Fin 0) then 1 else - 1))
                                   (dmul (e_D0 st ! l) (ACA_EE ps))) dzA) dzA);
          theta_l = dadd (e_theta st ! l) theta_step
      in algEE_positions ps adds dels tinner ls
           (st\<lparr>e_dzA := (e_dzA st)[l := dzA],
               e_theta := (e_theta st)[l := theta_l],
               e_thetamatrix :=
                 (e_thetamatrix st)[l := (e_thetamatrix st ! l)[tinner := theta_l]]\<rparr>))"

fun algEE_inner_loop ::
    "basic_sampler \<Rightarrow> bool \<Rightarrow> sampler_opts \<Rightarrow> nat \<Rightarrow> change_stats_func list \<Rightarrow> nat \<Rightarrow> dbl
      \<Rightarrow> ee_params \<Rightarrow> nat list \<Rightarrow> algEE_state \<Rightarrow> algEE_state res" where
  "algEE_inner_loop basicSampler useIFD opts n funcs sampler_m ifd_K ps [] st = Inr st"
| "algEE_inner_loop basicSampler useIFD opts n funcs sampler_m ifd_K ps (tinner # ts) st =
     (case call_sampler basicSampler useIFD opts n funcs (e_theta st) sampler_m True ifd_K
             (e_aux st) (e_world st) of
        Inl e \<Rightarrow> Inl e
      | Inr r \<Rightarrow>
          algEE_inner_loop basicSampler useIFD opts n funcs sampler_m ifd_K ps ts
            (algEE_positions ps (add_out r) (del_out r) tinner [0..<n]
               (st\<lparr>e_aux := aux_out r, e_world := world_out r\<rparr>)))"

text \<open>
  The adaptive rescaling of \<open>D0\<close> after the inner loop, with its assertion that the
  standard deviation is not negative.
\<close>

definition dge0 :: "dbl \<Rightarrow> bool" where
  "dge0 x = (dlt (Fin 0) x \<or> x = Fin 0)"

fun rescale_D0 ::
    "(dbl list \<Rightarrow> dbl \<times> dbl) \<Rightarrow> dbl \<Rightarrow> dbl list list \<Rightarrow> nat list \<Rightarrow> dbl list \<Rightarrow> dbl list res" where
  "rescale_D0 mean_and_sd cC tm [] D0 = Inr D0"
| "rescale_D0 mean_and_sd cC tm (l # ls) D0 =
     (let (m0, theta_sd) = mean_and_sd (tm ! l);
          theta_mean = (if dlt (fabs m0) (Fin (1 / 10)) then Fin (1 / 10) else m0)
      in if \<not> dge0 theta_sd then Inl Assert_failed
         else if dlt (Fin (1 / 10 ^ 10)) theta_sd
         then rescale_D0 mean_and_sd cC tm ls
                (D0[l := dmul (D0 ! l) (dsqrt (ddiv cC (ddiv theta_sd (fabs theta_mean))))])
         else rescale_D0 mean_and_sd cC tm ls D0)"

fun algEE_outer_loop ::
    "basic_sampler \<Rightarrow> (dbl list \<Rightarrow> dbl \<times> dbl) \<Rightarrow> bool \<Rightarrow> sampler_opts \<Rightarrow> nat
      \<Rightarrow> change_stats_func list \<Rightarrow> nat \<Rightarrow> dbl \<Rightarrow> ee_params \<Rightarrow> nat \<Rightarrow> nat \<Rightarrow> algEE_state
      \<Rightarrow> algEE_state res" where
  "algEE_outer_loop basicSampler mean_and_sd useIFD opts n funcs sampler_m ifd_K ps Minner 0 st =
     Inr st"
| "algEE_outer_loop basicSampler mean_and_sd useIFD opts n funcs sampler_m ifd_K ps Minner
     (Suc k) st =
     (case algEE_inner_loop basicSampler useIFD opts n funcs sampler_m ifd_K ps [0..<Minner] st of
        Inl e \<Rightarrow> Inl e
      | Inr st1 \<Rightarrow>
          (case (if \<not> useBorisenkoUpdate ps
                 then rescale_D0 mean_and_sd (compC ps) (e_thetamatrix st1) [0..<n] (e_D0 st1)
                 else Inr (e_D0 st1)) of
             Inl e \<Rightarrow> Inl e
           | Inr D0' \<Rightarrow>
               algEE_outer_loop basicSampler mean_and_sd useIFD opts n funcs sampler_m ifd_K ps
                 Minner k (st1\<lparr>e_D0 := D0'\<rparr>)))"

text \<open>\<^verbatim>\<open>algorithm_EE\<close> returns the final \<open>theta\<close> and the world.\<close>

definition algorithm_EE ::
    "basic_sampler \<Rightarrow> (dbl list \<Rightarrow> dbl \<times> dbl) \<Rightarrow> world \<Rightarrow> nat \<Rightarrow> change_stats_func list \<Rightarrow> nat
      \<Rightarrow> nat \<Rightarrow> nat \<Rightarrow> ee_params \<Rightarrow> dbl list \<Rightarrow> dbl list \<Rightarrow> bool \<Rightarrow> dbl \<Rightarrow> sampler_opts
      \<Rightarrow> (dbl list \<times> world) res" where
  "algorithm_EE basicSampler mean_and_sd w n funcs Mouter Minner sampler_m ps D0 theta
       useIFDsampler ifd_K opts =
     (case algEE_outer_loop basicSampler mean_and_sd useIFDsampler opts n funcs sampler_m ifd_K
             ps Minner Mouter
             \<lparr>e_theta = theta, e_dzA = replicate n (Fin 0), e_D0 = D0,
              e_thetamatrix = replicate n (replicate Minner (Fin 0)), e_aux = Fin 0,
              e_world = w\<rparr> of
        Inl e \<Rightarrow> Inl e
      | Inr st \<Rightarrow> Inr (e_theta st, e_world st))"

text \<open>The degeneracy test of \<^verbatim>\<open>ee_estimate\<close>: a loop over the positions.\<close>

fun degeneracy_check :: "dbl list \<Rightarrow> nat list \<Rightarrow> int \<times> world \<Rightarrow> int \<times> world" where
  "degeneracy_check Dmean [] st = st"
| "degeneracy_check Dmean (i # is) (errcode, w) =
     (if isinf (Dmean ! i)
      then degeneracy_check Dmean is (1, w\<lparr>warnings := warnings w @ [Warning_D0_is_NaN i]\<rparr>)
      else degeneracy_check Dmean is (errcode, w))"

record ee_config =
  samplerSteps :: nat
  Ssteps :: nat
  EEsteps :: nat
  EEinnerSteps :: nat
  ACA_S :: dbl
  algEE :: ee_params
  useIFDsampler :: bool
  ifd_K :: dbl
  sampler :: sampler_opts

text \<open>\<^verbatim>\<open>ee_estimate\<close> returns its error code, \<open>theta\<close> and the world.\<close>

definition ee_estimate ::
    "basic_sampler \<Rightarrow> (dbl list \<Rightarrow> dbl \<times> dbl) \<Rightarrow> world \<Rightarrow> nat \<Rightarrow> change_stats_func list
      \<Rightarrow> ee_config \<Rightarrow> (int \<times> dbl list \<times> world) res" where
  "ee_estimate basicSampler mean_and_sd w n funcs cfg =
     (case algorithm_S basicSampler (w\<lparr>printed := printed w @ [Running_Algorithm_S]\<rparr>) n funcs
             (Ssteps cfg) (samplerSteps cfg) (ACA_S cfg) (useIFDsampler cfg) (ifd_K cfg)
             (sampler cfg) of
        Inl e \<Rightarrow> Inl e
      | Inr (theta, Dmean, w1) \<Rightarrow>
          let (errcode, w2) = degeneracy_check Dmean [0..<n] (0, w1) in
          if errcode = 0 then
            (case algorithm_EE basicSampler mean_and_sd
                    (w2\<lparr>printed := printed w2 @ [Running_Algorithm_EE]\<rparr>) n funcs
                    (EEsteps cfg) (EEinnerSteps cfg) (samplerSteps cfg) (algEE cfg) Dmean theta
                    (useIFDsampler cfg) (ifd_K cfg) (sampler cfg) of
               Inl e \<Rightarrow> Inl e
             | Inr (theta', w3) \<Rightarrow> Inr (errcode, theta', w3))
          else Inr (errcode, theta, w2))"

section \<open>The drivers (equilibriumExpectation.c, EstimNetDirectedMain.c, simulation.c)\<close>

text \<open>
  The configuration as the drivers read it. The four arrays of change statistics are one
  list (see above); \<open>param_names\<close> names the structural ones, which come first.
\<close>

record param_config =
  num_change_stats_funcs :: nat
  num_attr_change_stats_funcs :: nat
  num_dyadic_change_stats_funcs :: nat
  num_attr_interaction_change_stats_funcs :: nat
  param_names :: "string list"
  change_stats_funcs :: "change_stats_func list"

record estim_config = ee_config +
  estim_params :: param_config
  zone_filename :: "string option"
  outputSimulatedNetwork :: bool

record sim_config =
  numNodes :: nat
  sim_params :: param_config
  sim_zone_filename :: "string option"
  sim_samplerSteps :: nat
  sim_useIFDsampler :: bool
  sim_ifd_K :: dbl
  sim_sampler :: sampler_opts

text \<open>
  What the drivers get from outside the program: whether each file opens and each loader
  succeeds, the graph the arc-list loader builds, and what loading the snowball zones does
  to a graph. The loaders are not among the sources.
\<close>

record environment =
  arclist_file_opens :: bool
  loaded_graph :: graph
  attributes_load :: bool
  snowball_zones_load :: bool
  with_zones :: "graph \<Rightarrow> graph"
  attr_indices_build :: bool
  dyadic_indices_build :: bool
  attr_interaction_indices_build :: bool
  theta_outfile_opens :: bool
  dzA_outfile_opens :: bool

definition in_graph :: "process \<Rightarrow> graph \<Rightarrow> world" where
  "in_graph p g = process.extend p (world.fields g)"

definition complain :: "process \<Rightarrow> stderr_msg \<Rightarrow> process" where
  "complain p m = p\<lparr>warnings := warnings p @ [m]\<rparr>"

text \<open>
  \<^verbatim>\<open>strcasecmp(a, b) == 0\<close>: equality of the two strings up to the case of ASCII letters.
  \<^verbatim>\<open>ARC_PARAM_STR\<close> is defined in a header that is not among the sources; it is the
  name \<^verbatim>\<open>Arc\<close> the error message of \<^verbatim>\<open>do_estimation\<close> and the specification give.
\<close>

definition tolower_c :: "char \<Rightarrow> char" where
  "tolower_c c =
     (let k = (of_char c :: nat) in if 65 \<le> k \<and> k \<le> 90 then char_of (k + 32) else c)"

definition strcasecmp_eq :: "string \<Rightarrow> string \<Rightarrow> bool" where
  "strcasecmp_eq a b = (map tolower_c a = map tolower_c b)"

definition ARC_PARAM_STR :: string where
  "ARC_PARAM_STR = ''Arc''"

definition names_Arc :: "param_config \<Rightarrow> bool" where
  "names_Arc pc =
     list_ex (\<lambda>i. strcasecmp_eq (param_names pc ! i) ARC_PARAM_STR)
       [0..<num_change_stats_funcs pc]"

definition num_param :: "param_config \<Rightarrow> nat" where
  "num_param pc =
     num_change_stats_funcs pc + num_attr_change_stats_funcs pc +
     num_dyadic_change_stats_funcs pc + num_attr_interaction_change_stats_funcs pc"

text \<open>
  \<^verbatim>\<open>do_estimation\<close> returns its \<^verbatim>\<open>int\<close> and the state of the process. The warnings about
  options that the selected algorithm ignores compare with defaults that are not among
  the sources; they do not influence the control flow and are left out.
\<close>

definition do_estimation ::
    "basic_sampler \<Rightarrow> (dbl list \<Rightarrow> dbl \<times> dbl) \<Rightarrow> environment \<Rightarrow> estim_config \<Rightarrow> process
      \<Rightarrow> (int \<times> process) res" where
  "do_estimation basicSampler mean_and_sd env config p =
     (if \<not> arclist_file_opens env then Inr (- 1, complain p Error_other)
      else if zone_filename config \<noteq> None \<and> \<not> snowball_zones_load env
      then Inr (- 1, complain p Error_other)
      else
        let g = (if zone_filename config \<noteq> None then with_zones env (loaded_graph env)
                 else loaded_graph env)
        in
        if \<not> attr_indices_build env then Inr (- 1, complain p Error_other)
        else if \<not> dyadic_indices_build env then Inr (- 1, complain p Error_other)
        else if \<not> attr_interaction_indices_build env then Inr (- 1, complain p Error_other)
        else if \<not> theta_outfile_opens env then Inr (- 1, complain p Error_other)
        else if useIFDsampler config \<and> names_Arc (estim_params config)
        then Inr (- 1, complain p Error_Arc_with_IFD_sampler)
        else if useConditionalEstimation (sampler config) \<and> zone_filename config = None
        then Inr (- 1, complain p Error_other)
        else if useConditionalEstimation (sampler config) \<and> max_zone g < 1
        then Inr (- 1, complain p Error_other)
        else if \<not> dzA_outfile_opens env then Inr (- 1, complain p Error_other)
        else
          (case ee_estimate basicSampler mean_and_sd (in_graph p g)
                  (num_param (estim_params config)) (change_stats_funcs (estim_params config))
                  (ee_config.truncate config) of
             Inl e \<Rightarrow> Inl e
           | Inr (errcode, theta, w) \<Rightarrow> Inr (0, process.truncate w)))"

text \<open>
  \<^verbatim>\<open>main\<close> of EstimNetDirectedMain.c. The command line is one of three shapes; the
  parser of the configuration file is not among the sources and is a parameter. The
  result is the status the process exits with, as its parent reads it (the low eight
  bits of the argument of \<^verbatim>\<open>exit\<close>).
\<close>

datatype command_line = Cli_help | Cli_usage_error | Cli_config string

definition exit_status :: "int \<Rightarrow> nat" where
  "exit_status rc = nat (rc mod 256)"

definition main_estim ::
    "basic_sampler \<Rightarrow> (dbl list \<Rightarrow> dbl \<times> dbl) \<Rightarrow> (string \<Rightarrow> estim_config option) \<Rightarrow> environment
      \<Rightarrow> real list \<Rightarrow> command_line \<Rightarrow> nat res" where
  "main_estim basicSampler mean_and_sd parse_estim_config_file env draws cl =
     (case cl of
        Cli_help \<Rightarrow> Inr (exit_status 0)
      | Cli_usage_error \<Rightarrow> Inr (exit_status 1)
      | Cli_config config_filename \<Rightarrow>
          (case parse_estim_config_file config_filename of
             None \<Rightarrow> Inr (exit_status 1)
           | Some config \<Rightarrow>
               (case do_estimation basicSampler mean_and_sd env config
                       \<lparr>isDelete = False, prng = draws, warnings = [], printed = []\<rparr> of
                  Inl e \<Rightarrow> Inl e
                | Inr (rc, p) \<Rightarrow> Inr (exit_status rc))))"

text \<open>
  Modelled from the spec: \<^verbatim>\<open>allocate_digraph\<close> is not among the sources; it builds the
  empty graph on the given number of nodes, every count zero and every list empty.
\<close>

definition allocate_digraph :: "nat \<Rightarrow> graph" where
  "allocate_digraph N =
     \<lparr>num_nodes = N, num_arcs = 0, outdegree = (\<lambda>_. 0), arclist = (\<lambda>_. []),
      indegree = (\<lambda>_. 0), revarclist = (\<lambda>_. []), allarcs = [],
      mixTwoPathMatrix = (\<lambda>_. 0), inTwoPathMatrix = (\<lambda>_. 0), outTwoPathMatrix = (\<lambda>_. 0),
      zone = (\<lambda>_. 0), max_zone = 0, num_inner_nodes = 0, inner_nodes = [],
      num_inner_arcs = 0, allinnerarcs = [], prev_wave_degree = (\<lambda>_. 0),
      node_term = (\<lambda>_. 0), max_term = 0, num_maxterm_nodes = 0, maxterm_nodes = [],
      num_maxtermsender_arcs = 0, all_maxtermsender_arcs = []\<rparr>"

definition simulate_ergm ::
    "basic_sampler \<Rightarrow> world \<Rightarrow> nat \<Rightarrow> change_stats_func list \<Rightarrow> nat \<Rightarrow> dbl list \<Rightarrow> bool \<Rightarrow> dbl
      \<Rightarrow> sampler_opts \<Rightarrow> (int \<times> world) res" where
  "simulate_ergm basicSampler w n funcs sampler_m theta useIFD ifdK opts =
     (case call_sampler basicSampler useIFD opts n funcs theta sampler_m True ifdK (Fin 0) w of
        Inl e \<Rightarrow> Inl e
      | Inr r \<Rightarrow> Inr (0, world_out r))"

definition do_simulation ::
    "basic_sampler \<Rightarrow> environment \<Rightarrow> sim_config \<Rightarrow> process \<Rightarrow> (int \<times> process) res" where
  "do_simulation basicSampler env config p =
     (if \<not> attributes_load env then Inr (- 1, complain p Error_other)
      else if sim_zone_filename config \<noteq> None \<and> \<not> snowball_zones_load env
      then Inr (- 1, complain p Error_other)
      else
        let g = (if sim_zone_filename config \<noteq> None
                 then with_zones env (allocate_digraph (numNodes config))
                 else allocate_digraph (numNodes config))
        in
        if \<not> attr_indices_build env then Inr (- 1, complain p Error_other)
        else if \<not> dyadic_indices_build env then Inr (- 1, complain p Error_other)
        else if \<not> attr_interaction_indices_build env then Inr (- 1, complain p Error_other)
        else if useConditionalEstimation (sim_sampler config) \<and> sim_zone_filename config = None
        then Inr (- 1, complain p Error_other)
        else if useConditionalEstimation (sim_sampler config) \<and> max_zone g < 1
        then Inr (- 1, complain p Error_other)
        else
          (case simulate_ergm basicSampler
                  (in_graph (p\<lparr>printed := printed p @ [Running_simulation]\<rparr>) g)
                  (num_param (sim_params config)) (change_stats_funcs (sim_params config))
                  (sim_samplerSteps config) (replicate (num_param (sim_params config)) (Fin 0))
                  (sim_useIFDsampler config) (sim_ifd_K config) (sim_sampler config) of
             Inl e \<Rightarrow> Inl e
           | Inr (rc, w) \<Rightarrow> Inr (0, process.truncate w)))"

section \<open>Concrete inputs\<close>

text \<open>
  Small inputs on which the model is run below. \<^verbatim>\<open>changeArc\<close> and \<^verbatim>\<open>changeReciprocity\<close>
  are declared in changeStatisticsDirected.h: adding an arc changes the arc count by one
  and the count of reciprocated pairs by one exactly when the reverse arc is present.
\<close>

definition changeArc :: change_stats_func where
  "changeArc g i j = Fin 1"

definition changeReciprocity :: change_stats_func where
  "changeReciprocity g i j = (if isArc g j i then Fin 1 else Fin 0)"

definition plain_opts :: sampler_opts where
  "plain_opts = \<lparr>useConditionalEstimation = False, forbidReciprocity = False,
                  citationERGM = False, allowLoops = False\<rparr>"

definition snowball_opts :: sampler_opts where
  "snowball_opts = \<lparr>useConditionalEstimation = True, forbidReciprocity = False,
                     citationERGM = False, allowLoops = False\<rparr>"

definition citation_opts :: sampler_opts where
  "citation_opts = \<lparr>useConditionalEstimation = False, forbidReciprocity = False,
                     citationERGM = True, allowLoops = False\<rparr>"

definition fresh_process :: "real list \<Rightarrow> process" where
  "fresh_process draws = \<lparr>isDelete = False, prng = draws, warnings = [], printed = []\<rparr>"

definition files_ok :: "graph \<Rightarrow> environment" where
  "files_ok g =
     \<lparr>arclist_file_opens = True, loaded_graph = g, attributes_load = True,
      snowball_zones_load = True, with_zones = (\<lambda>g'. g'), attr_indices_build = True,
      dyadic_indices_build = True, attr_interaction_indices_build = True,
      theta_outfile_opens = True, dzA_outfile_opens = True\<rparr>"

definition one_param :: "string \<Rightarrow> change_stats_func \<Rightarrow> param_config" where
  "one_param name f =
     \<lparr>num_change_stats_funcs = 1, num_attr_change_stats_funcs = 0,
      num_dyadic_change_stats_funcs = 0, num_attr_interaction_change_stats_funcs = 0,
      param_names = [name], change_stats_funcs = [f]\<rparr>"

text \<open>
  An estimation with the IFD sampler and the single parameter Reciprocity, one sampler
  step per iteration, the given numbers of iterations and the given update rule.
\<close>

definition reciprocity_config :: "nat \<Rightarrow> nat \<Rightarrow> bool \<Rightarrow> estim_config" where
  "reciprocity_config sampler_steps S_steps borisenko =
     \<lparr>samplerSteps = sampler_steps, Ssteps = S_steps, EEsteps = 1, EEinnerSteps = 1,
      ACA_S = Fin (1 / 10),
      algEE = \<lparr>ACA_EE = Fin (1 / 1000), compC = Fin (1 / 100),
               useBorisenkoUpdate = borisenko, learningRate = Fin (1 / 1000),
               minTheta = Fin (1 / 100)\<rparr>,
      useIFDsampler = True, ifd_K = Fin (1 / 10), sampler = plain_opts,
      estim_params = one_param ''Reciprocity'' changeReciprocity,
      zone_filename = None, outputSimulatedNetwork = False\<rparr>"

text \<open>A simulation with the IFD sampler and the single structural parameter Arc.\<close>

definition arc_sim_config :: sim_config where
  "arc_sim_config =
     \<lparr>numNodes = 2, sim_params = one_param ''Arc'' changeArc, sim_zone_filename = None,
      sim_samplerSteps = 1, sim_useIFDsampler = True, sim_ifd_K = Fin (1 / 10),
      sim_sampler = plain_opts\<rparr>"

text \<open>A world with the given flag, draws and graph, and nothing written yet.\<close>

definition quiet_world :: "bool \<Rightarrow> real list \<Rightarrow> graph \<Rightarrow> world" where
  "quiet_world flag draws g =
     in_graph \<lparr>isDelete = flag, prng = draws, warnings = [], printed = []\<rparr> g"

text \<open>The graph on two nodes with the single arc \<open>0 \<rightarrow> 1\<close>, built by the insertion routine.\<close>

definition one_arc_graph :: graph where
  "one_arc_graph = insertArc_allarcs (allocate_digraph 2) 0 1"

text \<open>
  Two nodes for the citation regime: node 0 is the only node of the last term, and there
  is no arc yet.
\<close>

definition citation_graph :: graph where
  "citation_graph =
     (allocate_digraph 2)\<lparr>node_term := (\<lambda>v. if v = 0 then 1 else 0), max_term := 1,
                           num_maxterm_nodes := 1, maxterm_nodes := [0]\<rparr>"

section \<open>Notions the statements about the sampler use\<close>

text \<open>
  The one place where the sampler changes the kind of move without an accepted proposal:
  in the citation regime (reached only when the snowball regime is off), a pending delete
  move with no arc sent by a node of the last term.
\<close>

definition forced_add :: "sampler_opts \<Rightarrow> world \<Rightarrow> bool" where
  "forced_add opts w =
     (\<not> useConditionalEstimation opts \<and> citationERGM opts \<and> isDelete w \<and>
      num_maxtermsender_arcs (w_graph w) = 0)"

text \<open>
  The proposals a run of \<open>k\<close> loop iterations makes, in order, and the world it leaves.
  This is the loop of \<^verbatim>\<open>ifdSampler\<close> without its locals (lemma \<open>ifd_loop_run\<close>).
\<close>

fun ifd_run ::
    "sampler_opts \<Rightarrow> nat \<Rightarrow> change_stats_func list \<Rightarrow> dbl list \<Rightarrow> dbl \<Rightarrow> bool \<Rightarrow> nat \<Rightarrow> world
      \<Rightarrow> (proposal list \<times> world) res" where
  "ifd_run opts n funcs theta aux performMove 0 w = Inr ([], w)"
| "ifd_run opts n funcs theta aux performMove (Suc k) w =
     (case ifd_proposal opts n funcs theta aux performMove w of
        Inl e \<Rightarrow> Inl e
      | Inr (p, w1) \<Rightarrow>
          (case ifd_run opts n funcs theta aux performMove k w1 of
             Inl e \<Rightarrow> Inl e
           | Inr (ps, w2) \<Rightarrow> Inr (p # ps, w2)))"

text \<open>
  A stretch of consecutive proposals, all rejected, leading from one world to another.
  The proposals may belong to different calls of the sampler: each has its own \<open>theta\<close>
  and auxiliary parameter.
\<close>

inductive rejected_proposals :: "sampler_opts \<Rightarrow> bool \<Rightarrow> world \<Rightarrow> world \<Rightarrow> bool"
  for opts :: sampler_opts and performMove :: bool where
  no_proposal: "rejected_proposals opts performMove w w"
| one_more:
    "ifd_proposal opts n funcs theta aux performMove w = Inr (p, w1) \<Longrightarrow> \<not> was_accepted p \<Longrightarrow>
     rejected_proposals opts performMove w1 w2 \<Longrightarrow> rejected_proposals opts performMove w w2"

text \<open>The numbers of delete and of add proposals in a run: \<open>Ndel\<close> and \<open>Nadd\<close>.\<close>

definition count_del :: "proposal list \<Rightarrow> nat" where
  "count_del ps = length (filter del_move ps)"

definition count_add :: "proposal list \<Rightarrow> nat" where
  "count_add ps = length (filter (\<lambda>p. \<not> del_move p) ps)"

section \<open>The step of the auxiliary parameter as the specification words it\<close>

text \<open>
  Section 4.4 of the specification: \<open>V\<close> moves by \<open>ifd_K * (Ndel - Nadd)\<^sup>2 / (Ndel + Nadd)\<^sup>2\<close>,
  down when deletes outnumber adds, up when adds outnumber deletes. The counts are
  natural numbers and the arithmetic is that of the reals.
\<close>

definition spec_aux_update :: "real \<Rightarrow> real \<Rightarrow> nat \<Rightarrow> nat \<Rightarrow> real" where
  "spec_aux_update k v nd na =
     (if na < nd then v - k * (real nd - real na)\<^sup>2 / (real nd + real na)\<^sup>2
      else if nd < na then v + k * (real nd - real na)\<^sup>2 / (real nd + real na)\<^sup>2
      else v)"

section \<open>Algorithm S as the specification words it\<close>

text \<open>
  Section 4.5 of the specification, position by position: \<open>dzA = delSum - addSum\<close>,
  \<open>sum = addSum + delSum\<close>, \<open>D0 += dzA\<^sup>2\<close>, \<open>da = ACA_S / sum\<^sup>2\<close> (0 when \<open>sum = 0\<close>),
  \<open>theta += sign(dzA) * da * dzA\<^sup>2\<close>; at the end \<open>Dmean = sampler_m / D0\<close>. These
  definitions follow the specification, not the code; theorem
  \<open>algorithm_S_as_specified\<close> compares the two.
\<close>

definition spec_S_step :: "dbl \<Rightarrow> dbl \<Rightarrow> dbl \<Rightarrow> dbl" where
  "spec_S_step ACA addSum delSum =
     (let dzA = dsub delSum addSum;
          sum = dadd addSum delSum;
          da = (if sum = Fin 0 then Fin 0 else ddiv ACA (dmul sum sum))
      in dmul (dmul (dsign dzA) da) (dmul dzA dzA))"

definition spec_S_iteration ::
    "dbl \<Rightarrow> nat \<Rightarrow> dbl list \<Rightarrow> dbl list \<Rightarrow> dbl list \<times> dbl list \<Rightarrow> dbl list \<times> dbl list" where
  "spec_S_iteration ACA n adds dels td =
     (map (\<lambda>l. dadd (fst td ! l) (spec_S_step ACA (adds ! l) (dels ! l))) [0..<n],
      map (\<lambda>l. dadd (snd td ! l)
                  (dmul (dsub (dels ! l) (adds ! l)) (dsub (dels ! l) (adds ! l)))) [0..<n])"

fun spec_S_loop ::
    "basic_sampler \<Rightarrow> bool \<Rightarrow> sampler_opts \<Rightarrow> nat \<Rightarrow> change_stats_func list \<Rightarrow> nat \<Rightarrow> dbl \<Rightarrow> dbl
      \<Rightarrow> nat \<Rightarrow> algS_state \<Rightarrow> algS_state res" where
  "spec_S_loop basicSampler useIFD opts n funcs sampler_m ACA ifdK 0 st = Inr st"
| "spec_S_loop basicSampler useIFD opts n funcs sampler_m ACA ifdK (Suc k) st =
     (case call_sampler basicSampler useIFD opts n funcs (s_theta st) sampler_m False ifdK
             (s_aux st) (s_world st) of
        Inl e \<Rightarrow> Inl e
      | Inr r \<Rightarrow>
          spec_S_loop basicSampler useIFD opts n funcs sampler_m ACA ifdK k
            \<lparr>s_theta = fst (spec_S_iteration ACA n (add_out r) (del_out r) (s_theta st, s_D0 st)),
             s_D0 = snd (spec_S_iteration ACA n (add_out r) (del_out r) (s_theta st, s_D0 st)),
             s_aux = aux_out r, s_world = world_out r\<rparr>)"

definition spec_algorithm_S ::
    "basic_sampler \<Rightarrow> world \<Rightarrow> nat \<Rightarrow> change_stats_func list \<Rightarrow> nat \<Rightarrow> nat \<Rightarrow> dbl \<Rightarrow> bool \<Rightarrow> dbl
      \<Rightarrow> sampler_opts \<Rightarrow> (dbl list \<times> dbl list \<times> world) res" where
  "spec_algorithm_S basicSampler w n funcs M1 sampler_m ACA useIFD ifdK opts =
     (case spec_S_loop basicSampler useIFD opts n funcs sampler_m ACA ifdK M1
             \<lparr>s_theta = replicate n (Fin 0), s_D0 = replicate n (Fin 0), s_aux = Fin 0,
              s_world = w\<rparr> of
        Inl e \<Rightarrow> Inl e
      | Inr st \<Rightarrow>
          Inr (s_theta st,
               map (\<lambda>l. ddiv (Fin (real sampler_m)) (s_D0 st ! l)) [0..<n],
               s_world st))"

section \<open>The Borisenko update as the specification words it\<close>

text \<open>
  Section 4.6 of the specification: \<open>theta \<leftarrow> theta - sign(dzA) * learningRate *
  max(|theta|, minTheta)\<close>. The sign function is a parameter: \<open>dsign\<close> is the
  mathematical sign the specification names, \<open>two_way_sign\<close> is the two-valued sign of the
  code's conditional expression \<^verbatim>\<open>(dzA[l] < 0 ? 1 : -1)\<close>, negated.
\<close>

definition two_way_sign :: "dbl \<Rightarrow> dbl" where
  "two_way_sign x = Fin (if dlt x (Fin 0) then - 1 else 1)"

definition spec_borisenko :: "(dbl \<Rightarrow> dbl) \<Rightarrow> ee_params \<Rightarrow> dbl \<Rightarrow> dbl \<Rightarrow> dbl" where
  "spec_borisenko sign_of ps theta_l dzA_l =
     dsub theta_l
       (dmul (dmul (sign_of dzA_l) (learningRate ps)) (MAX_d (fabs theta_l) (minTheta ps)))"

text \<open>The running accumulator: \<open>dzA += addSum - delSum\<close>.\<close>

definition spec_dzA :: "dbl list \<Rightarrow> dbl list \<Rightarrow> dbl list \<Rightarrow> nat \<Rightarrow> dbl" where
  "spec_dzA dzA adds dels l = dadd (dzA ! l) (dsub (adds ! l) (dels ! l))"

text \<open>Parameters of a run with the Borisenko update, for the concrete steps below.\<close>

definition borisenko_params :: ee_params where
  "borisenko_params =
     \<lparr>ACA_EE = Fin (1 / 1000), compC = Fin (1 / 100), useBorisenkoUpdate = True,
      learningRate = Fin (1 / 10), minTheta = Fin (1 / 100)\<rparr>"

definition one_position :: "dbl \<Rightarrow> dbl \<Rightarrow> world \<Rightarrow> algEE_state" where
  "one_position theta_0 dzA_0 w =
     \<lparr>e_theta = [theta_0], e_dzA = [dzA_0], e_D0 = [Fin 1], e_thetamatrix = [[Fin 0]],
      e_aux = Fin 0, e_world = w\<rparr>"

text \<open>The step of \<open>theta\<close> in Algorithm EE as the code computes it, for either rule.\<close>

definition code_theta :: "ee_params \<Rightarrow> dbl \<Rightarrow> dbl \<Rightarrow> dbl \<Rightarrow> dbl" where
  "code_theta ps t D z =
     dadd t (if useBorisenkoUpdate ps
             then dmul (dmul (Fin (if dlt z (Fin 0) then 1 else - 1)) (learningRate ps))
                       (MAX_d (fabs t) (minTheta ps))
             else dmul (dmul (dmul (Fin (if dlt z (Fin 0) then 1 else - 1))
                                   (dmul D (ACA_EE ps))) z) z)"

text \<open>
  A stand-in for the basic sampler where a closed statement needs one; the runs below use
  the IFD sampler and never call it.
\<close>

definition no_basic_sampler :: basic_sampler where
  "no_basic_sampler opts n funcs theta sampler_m performMove w = Inl Assert_failed"

section \<open>What a sampler call without moves leaves of the graph\<close>

text \<open>The flat arc list the active regime draws its delete candidates from.\<close>

definition active_list :: "sampler_opts \<Rightarrow> graph \<Rightarrow> arc list" where
  "active_list opts g =
     (if useConditionalEstimation opts then allinnerarcs g
      else if citationERGM opts then all_maxtermsender_arcs g
      else allarcs g)"

text \<open>
  Two graphs with the same content: every count, degree, two-path counter, zone and term
  field is equal; the neighbour lists and the flat arc lists hold the same entries, in
  an order that may differ.
\<close>

definition same_graph :: "graph \<Rightarrow> graph \<Rightarrow> bool" where
  "same_graph g g' =
     (num_nodes g' = num_nodes g \<and> num_arcs g' = num_arcs g \<and>
      outdegree g' = outdegree g \<and> indegree g' = indegree g \<and>
      (\<forall>i. mset (arclist g' i) = mset (arclist g i)) \<and>
      (\<forall>i. mset (revarclist g' i) = mset (revarclist g i)) \<and>
      mset (allarcs g') = mset (allarcs g) \<and>
      mixTwoPathMatrix g' = mixTwoPathMatrix g \<and> inTwoPathMatrix g' = inTwoPathMatrix g \<and>
      outTwoPathMatrix g' = outTwoPathMatrix g \<and>
      zone g' = zone g \<and> max_zone g' = max_zone g \<and>
      num_inner_nodes g' = num_inner_nodes g \<and> inner_nodes g' = inner_nodes g \<and>
      num_inner_arcs g' = num_inner_arcs g \<and> mset (allinnerarcs g') = mset (allinnerarcs g) \<and>
      prev_wave_degree g' = prev_wave_degree g \<and>
      node_term g' = node_term g \<and> max_term g' = max_term g \<and>
      num_maxterm_nodes g' = num_maxterm_nodes g \<and> maxterm_nodes g' = maxterm_nodes g \<and>
      num_maxtermsender_arcs g' = num_maxtermsender_arcs g \<and>
      mset (all_maxtermsender_arcs g') = mset (all_maxtermsender_arcs g))"

section \<open>Unfolding the model on concrete inputs\<close>

lemmas driver_defs = do_estimation_def do_simulation_def simulate_ergm_def main_estim_def
  exit_status_def names_Arc_def strcasecmp_eq_def tolower_c_def ARC_PARAM_STR_def complain_def
  allocate_digraph_def num_param_def in_graph_def process.extend_def world.fields_def
  ee_config.truncate_def process.truncate_def files_ok_def one_param_def fresh_process_def
  reciprocity_config_def arc_sim_config_def plain_opts_def changeArc_def changeReciprocity_def

lemmas engine_defs = ee_estimate_def algorithm_S_def algorithm_EE_def call_sampler_def MAX_d_def

lemmas sampler_defs = ifdSampler_def ifd_iteration_def tally_def ifd_proposal_def ifd_select_def
  int_urand_def isArc_def calcChangeStats_def Let_def accumulate_def ifd_aux_update_def
  ifd_aux_param_step_def dbl_of_int_def ifd_imbalance_def dsub_def insert_active_def
  remove_active_def insertArc_allarcs_def insertArc_def updateTwoPathsMatrices_def bump_def
  removeArc_allarcs_def removeArc_def swap_remove_def

section \<open>The degeneracy guard of \<^verbatim>\<open>ee_estimate\<close>\<close>

lemma degeneracy_check_code:
  "fst (degeneracy_check Dmean is (e, w)) = (if list_ex (\<lambda>i. isinf (Dmean ! i)) is then 1 else e)"
  by (induction "is" arbitrary: e w) auto

lemma degeneracy_check_world:
  "printed (snd (degeneracy_check Dmean is (e, w))) = printed w \<and>
   prng (snd (degeneracy_check Dmean is (e, w))) = prng w \<and>
   w_graph (snd (degeneracy_check Dmean is (e, w))) = w_graph w \<and>
   isDelete (snd (degeneracy_check Dmean is (e, w))) = isDelete w"
  by (induction "is" arbitrary: e w) auto

text \<open>
  An infinite entry of \<open>Dmean\<close> is caught: the error code is 1 and Algorithm EE is not
  announced, the generator and the graph are left as Algorithm S left them.
\<close>

lemma ee_estimate_infinite:
  assumes "algorithm_S b (w\<lparr>printed := printed w @ [Running_Algorithm_S]\<rparr>) n funcs
             (Ssteps cfg) (samplerSteps cfg) (ACA_S cfg) (useIFDsampler cfg) (ifd_K cfg)
             (sampler cfg) = Inr (theta, Dmean, w1)"
    and "list_ex (\<lambda>i. isinf (Dmean ! i)) [0..<n]"
  shows "\<exists>w2. ee_estimate b m w n funcs cfg = Inr (1, theta, w2) \<and> printed w2 = printed w1 \<and>
           prng w2 = prng w1 \<and> w_graph w2 = w_graph w1"
proof -
  obtain e w2 where d: "degeneracy_check Dmean [0..<n] (0, w1) = (e, w2)"
    by (cases "degeneracy_check Dmean [0..<n] (0, w1)")
  have "e = 1"
    using degeneracy_check_code [of Dmean "[0..<n]" 0 w1] assms(2) d by simp
  moreover have "printed w2 = printed w1 \<and> prng w2 = prng w1 \<and> w_graph w2 = w_graph w1"
    using degeneracy_check_world [of Dmean "[0..<n]" 0 w1] d by simp
  ultimately show ?thesis
    using assms(1) d by (simp add: ee_estimate_def)
qed

text \<open>
  With no infinite entry the error code stays 0 and Algorithm EE runs, whatever else
  \<open>Dmean\<close> holds: the test is \<^verbatim>\<open>isinf\<close>, which is false of NaN.
\<close>

lemma ee_estimate_no_infinity:
  assumes "algorithm_S b (w\<lparr>printed := printed w @ [Running_Algorithm_S]\<rparr>) n funcs
             (Ssteps cfg) (samplerSteps cfg) (ACA_S cfg) (useIFDsampler cfg) (ifd_K cfg)
             (sampler cfg) = Inr (theta, Dmean, w1)"
    and "\<not> list_ex (\<lambda>i. isinf (Dmean ! i)) [0..<n]"
  shows "ee_estimate b m w n funcs cfg =
           (case algorithm_EE b m
                   ((snd (degeneracy_check Dmean [0..<n] (0, w1)))
                      \<lparr>printed := printed w1 @ [Running_Algorithm_EE]\<rparr>) n funcs
                   (EEsteps cfg) (EEinnerSteps cfg) (samplerSteps cfg) (algEE cfg) Dmean theta
                   (useIFDsampler cfg) (ifd_K cfg) (sampler cfg) of
              Inl e \<Rightarrow> Inl e
            | Inr (theta', w3) \<Rightarrow> Inr (0, theta', w3))"
proof -
  obtain e w2 where d: "degeneracy_check Dmean [0..<n] (0, w1) = (e, w2)"
    by (cases "degeneracy_check Dmean [0..<n] (0, w1)")
  have "e = 0"
    using degeneracy_check_code [of Dmean "[0..<n]" 0 w1] assms(2) d by simp
  moreover have "printed w2 = printed w1"
    using degeneracy_check_world [of Dmean "[0..<n]" 0 w1] d by simp
  ultimately show ?thesis
    using assms(1) d by (simp add: ee_estimate_def split: sum.splits)
qed

text \<open>
  Claim C1. After Algorithm S, a non-finite entry of \<open>Dmean\<close> is to abort the task
  (Algorithm EE not run, non-zero return), for infinities and NaN alike. The code tests
  \<^verbatim>\<open>isinf\<close> only, while its own warning reads "D0 is NaN". With \<open>samplerSteps = 0\<close> the
  sampler makes no proposal, \<open>D0\<close> stays 0 and \<open>Dmean = 0 / 0\<close> is NaN: Algorithm EE is
  announced and run, and \<^verbatim>\<open>ee_estimate\<close> returns 0.
\<close>

theorem ee_estimate_misses_NaN:
  "map_sum id (fst \<circ> snd)
     (algorithm_S b ((in_graph (fresh_process []) (allocate_digraph 2))
                        \<lparr>printed := [Running_Algorithm_S]\<rparr>)
        1 [changeReciprocity] 1 0 (Fin (1 / 10)) True (Fin (1 / 10)) plain_opts) = Inr [NaN] \<and>
   map_sum id (\<lambda>(errcode, theta, w). (errcode, printed w))
     (ee_estimate b m (in_graph (fresh_process []) (allocate_digraph 2))
        1 [changeReciprocity] (ee_config.truncate (reciprocity_config 0 1 True)))
     = Inr (0, [Running_Algorithm_S, Running_Algorithm_EE])"
  by (simp add: driver_defs engine_defs sampler_defs)

section \<open>The return value of \<^verbatim>\<open>do_estimation\<close>\<close>

text \<open>
  \<^verbatim>\<open>do_estimation\<close> returns 0 or -1, and -1 only from a check before \<^verbatim>\<open>ee_estimate\<close>:
  then nothing was announced and no draw was taken.
\<close>

lemma do_estimation_code:
  assumes "do_estimation b m env config p = Inr (rc, p')"
  shows "rc = 0 \<or> rc = - 1 \<and> printed p' = printed p \<and> prng p' = prng p"
  using assms
  by (auto simp: do_estimation_def Let_def complain_def split: if_splits sum.splits)

text \<open>
  Claim C2. A non-zero code of \<^verbatim>\<open>ee_estimate\<close> is to reach the caller of
  \<^verbatim>\<open>do_estimation\<close> and the exit status. The code calls \<^verbatim>\<open>ee_estimate\<close> as a statement and
  ends in \<^verbatim>\<open>return 0\<close>. On the empty graph on two nodes with the parameter Reciprocity,
  one iteration of Algorithm S with one proposal (the add move \<open>0 \<rightarrow> 1\<close>, accepted) leaves
  \<open>D0 = 0\<close> and \<open>Dmean = 1 / 0\<close> infinite: \<^verbatim>\<open>ee_estimate\<close> returns 1, \<^verbatim>\<open>do_estimation\<close>
  returns 0 and the process exits with status 0.
\<close>

theorem do_estimation_discards_errcode:
  "map_sum id fst
     (ee_estimate b m (in_graph (fresh_process [0, 1 / 2, 1 / 2]) (allocate_digraph 2))
        1 [changeReciprocity] (ee_config.truncate (reciprocity_config 1 1 False))) = Inr 1 \<and>
   map_sum id fst
     (do_estimation b m (files_ok (allocate_digraph 2)) (reciprocity_config 1 1 False)
        (fresh_process [0, 1 / 2, 1 / 2])) = Inr 0 \<and>
   main_estim b m (\<lambda>f. Some (reciprocity_config 1 1 False)) (files_ok (allocate_digraph 2))
     [0, 1 / 2, 1 / 2] (Cli_config ''config.txt'') = Inr 0"
  by (simp add: driver_defs engine_defs sampler_defs)

section \<open>The IFD sampler and an explicit Arc parameter\<close>

text \<open>
  The estimation driver refuses the combination: it returns -1 with an error on standard
  error, from this check or from one before it, and never reaches the sampler.
\<close>

lemma do_estimation_refuses_Arc_with_IFD:
  assumes "useIFDsampler config" and "names_Arc (estim_params config)"
  shows "do_estimation b m env config p = Inr (- 1, complain p Error_other) \<or>
         do_estimation b m env config p = Inr (- 1, complain p Error_Arc_with_IFD_sampler)"
  using assms by (simp add: do_estimation_def Let_def)

text \<open>
  Claim C9. A configuration with the IFD sampler and an explicit Arc parameter is to be
  refused with an error by both drivers. \<^verbatim>\<open>do_estimation\<close> does so; \<^verbatim>\<open>do_simulation\<close> has
  no such check. With the IFD sampler and the structural parameter Arc it announces the
  simulation, runs the sampler (one add move, accepted) and returns 0, with no error.
\<close>

theorem do_simulation_runs_IFD_with_Arc:
  "sim_useIFDsampler arc_sim_config \<and> names_Arc (sim_params arc_sim_config) \<and>
   do_simulation b (files_ok (allocate_digraph 0)) arc_sim_config (fresh_process [0, 1 / 2, 1 / 2])
     = Inr (0, \<lparr>isDelete = True, prng = [], warnings = [Warning_IFD_imbalance],
                 printed = [Running_simulation]\<rparr>)"
  by (simp add: driver_defs engine_defs sampler_defs)

section \<open>Proposals of the IFD sampler\<close>

lemma exp_minus_one_le_half: "exp (- 1 :: real) \<le> 1 / 2"
proof -
  have "(2::real) \<le> exp 1"
    using exp_ge_add_one_self [of "1::real"] by simp
  then have "1 / exp (1::real) \<le> 1 / 2"
    by (intro divide_left_mono) auto
  then show ?thesis
    by (simp add: exp_minus inverse_eq_divide)
qed

lemma reject_at_minus_one: "\<not> (9::real) < exp (- 1) * 10"
  using exp_minus_one_le_half by simp

lemmas world_defs = quiet_world_def one_arc_graph_def in_graph_def process.extend_def
  world.fields_def allocate_digraph_def plain_opts_def citation_opts_def citation_graph_def
  snowball_opts_def

text \<open>Choosing the candidate leaves the graph alone; only the citation guard moves the flag.\<close>

lemma ifd_select_world:
  assumes "ifd_select opts w = Inr (arcidx, i, j, w1)"
  shows "w_graph w1 = w_graph w \<and> printed w1 = printed w \<and>
         isDelete w1 = (isDelete w \<and> \<not> forced_add opts w) \<and>
         warnings w1 = (if forced_add opts w
                        then warnings w @ [Warning_num_maxtermsender_arcs_zero]
                        else warnings w)"
  using assms
  by (auto simp: ifd_select_def forced_add_def Let_def
           split: if_splits sum.splits prod.splits list.splits)

lemma num_arcs_insertArc: "num_arcs (insertArc g i j) = num_arcs g + 1"
  by (simp add: insertArc_def updateTwoPathsMatrices_def Let_def)

lemma num_arcs_removeArc: "removeArc g i j = Inr g1 \<Longrightarrow> num_arcs g1 = num_arcs g - 1"
  by (auto simp: removeArc_def updateTwoPathsMatrices_def Let_def split: if_splits)

lemma num_arcs_insert_active: "num_arcs (insert_active opts g i j) = num_arcs g + 1"
  by (simp add: insert_active_def insertArc_allinnerarcs_def insertArc_allarcs_def
        insertArc_all_maxtermsender_arcs_def num_arcs_insertArc)

lemma num_arcs_remove_active:
  "remove_active opts g i j arcidx = Inr g1 \<Longrightarrow> num_arcs g1 = num_arcs g - 1"
  by (auto simp: remove_active_def removeArc_allinnerarcs_def removeArc_allarcs_def
        removeArc_all_maxtermsender_arcs_def
        split: if_splits sum.splits dest!: num_arcs_removeArc)

lemma maxtermsender_count_removeArc:
  "removeArc g i j = Inr g1 \<Longrightarrow> num_maxtermsender_arcs g1 = num_maxtermsender_arcs g"
  by (auto simp: removeArc_def updateTwoPathsMatrices_def Let_def split: if_splits)

lemma maxtermsender_count_insertArc:
  "num_maxtermsender_arcs (insertArc g i j) = num_maxtermsender_arcs g"
  by (simp add: insertArc_def updateTwoPathsMatrices_def Let_def)

lemma maxtermsender_count_restored:
  "remove_active opts g i j arcidx = Inr g1 \<Longrightarrow>
   num_maxtermsender_arcs (insert_active opts g1 i j) = num_maxtermsender_arcs g"
  by (auto simp: remove_active_def insert_active_def removeArc_allinnerarcs_def
        removeArc_allarcs_def removeArc_all_maxtermsender_arcs_def
        insertArc_allinnerarcs_def insertArc_allarcs_def insertArc_all_maxtermsender_arcs_def
        maxtermsender_count_insertArc
        split: if_splits sum.splits dest!: maxtermsender_count_removeArc)

text \<open>The shape of a proposal that returns.\<close>

lemma ifd_proposal_cases:
  assumes "ifd_proposal opts n funcs theta aux performMove w = Inr (p, w')"
  obtains arcidx i j w1 g1 where
    "ifd_select opts w = Inr (arcidx, i, j, w1)"
    "del_move p = isDelete w1"
    "if isDelete w1 then remove_active opts (w_graph w1) i j arcidx = Inr g1
     else g1 = w_graph w1"
    "isDelete w' = (del_move p \<noteq> was_accepted p)"
    "printed w' = printed w1" "warnings w' = warnings w1"
    "w_graph w' =
       (if was_accepted p \<and> performMove
        then (if del_move p then g1 else insert_active opts g1 i j)
        else (if del_move p then insert_active opts g1 i j else g1))"
  using assms
  by (auto simp: ifd_proposal_def Let_def split: sum.splits prod.splits if_splits list.splits)

lemma ifd_proposal_kind:
  assumes "ifd_proposal opts n funcs theta aux performMove w = Inr (p, w')"
  shows "del_move p = (isDelete w \<and> \<not> forced_add opts w) \<and>
         isDelete w' = (del_move p \<noteq> was_accepted p)"
  using assms by (elim ifd_proposal_cases) (auto dest!: ifd_select_world)

lemma ifd_proposal_num_arcs:
  assumes "ifd_proposal opts n funcs theta aux True w = Inr (p, w')"
  shows "num_arcs (w_graph w') =
           (if was_accepted p
            then (if del_move p then num_arcs (w_graph w) - 1 else num_arcs (w_graph w) + 1)
            else num_arcs (w_graph w))"
  using assms
  by (elim ifd_proposal_cases)
     (auto dest!: ifd_select_world num_arcs_remove_active simp: num_arcs_insert_active
           split: if_splits)

lemma rejected_proposals_num_arcs:
  "rejected_proposals opts True w w' \<Longrightarrow> num_arcs (w_graph w') = num_arcs (w_graph w)"
  by (induction rule: rejected_proposals.induct) (auto dest!: ifd_proposal_num_arcs)

text \<open>
  Claim C3. The IFD sampler with \<open>performMove = True\<close>, from any world and for any
  draws: an accepted add move, then any number of rejected proposals, then an accepted
  delete move leave \<open>num_arcs\<close> as it was before the add move. The proposals may lie in
  different calls of the sampler (each has its own \<open>theta\<close> and auxiliary parameter).
\<close>

theorem ifd_round_keeps_num_arcs:
  assumes "ifd_proposal opts n funcs theta aux True w0 = Inr (p1, w1)"
    and "\<not> del_move p1" and "was_accepted p1"
    and "rejected_proposals opts True w1 w2"
    and "ifd_proposal opts n' funcs' theta' aux' True w2 = Inr (p2, w3)"
    and "del_move p2" and "was_accepted p2"
  shows "num_arcs (w_graph w3) = num_arcs (w_graph w0)"
proof -
  have "num_arcs (w_graph w1) = num_arcs (w_graph w0) + 1"
    using ifd_proposal_num_arcs [OF assms(1)] assms(2,3) by simp
  moreover have "num_arcs (w_graph w2) = num_arcs (w_graph w1)"
    using rejected_proposals_num_arcs [OF assms(4)] .
  moreover have "num_arcs (w_graph w3) = num_arcs (w_graph w2) - 1"
    using ifd_proposal_num_arcs [OF assms(5)] assms(6,7) by simp
  ultimately show ?thesis by simp
qed

text \<open>
  A round on the empty graph on two nodes: the arc \<open>0 \<rightarrow> 1\<close> is added, a delete proposal
  is rejected (auxiliary parameter 1, draw 9/10), the next one is accepted.
\<close>

lemma round_add_accepted:
  "ifd_proposal plain_opts 0 [] [] (Fin 0) True
     (quiet_world False [0, 1 / 2, 1 / 2, 0, 9 / 10, 0, 1 / 2] (allocate_digraph 2)) =
   Inr (\<lparr>del_move = False, was_accepted = True, changestats = []\<rparr>,
        quiet_world True [0, 9 / 10, 0, 1 / 2] one_arc_graph)"
  by (simp add: world_defs sampler_defs)

lemma round_delete_rejected:
  "ifd_proposal plain_opts 0 [] [] (Fin 1) True
     (quiet_world True [0, 9 / 10, 0, 1 / 2] one_arc_graph) =
   Inr (\<lparr>del_move = True, was_accepted = False, changestats = []\<rparr>,
        quiet_world True [0, 1 / 2] one_arc_graph)"
  by (simp add: world_defs sampler_defs reject_at_minus_one)

lemma round_delete_accepted:
  "\<exists>w3. ifd_proposal plain_opts 0 [] [] (Fin 0) True
           (quiet_world True [0, 1 / 2] one_arc_graph) =
         Inr (\<lparr>del_move = True, was_accepted = True, changestats = []\<rparr>, w3)"
  by (simp add: world_defs sampler_defs)

theorem ifd_round_keeps_num_arcs_witness:
  "\<exists>w3. ifd_proposal plain_opts 0 [] [] (Fin 0) True
           (quiet_world False [0, 1 / 2, 1 / 2, 0, 9 / 10, 0, 1 / 2] (allocate_digraph 2)) =
         Inr (\<lparr>del_move = False, was_accepted = True, changestats = []\<rparr>,
              quiet_world True [0, 9 / 10, 0, 1 / 2] one_arc_graph) \<and>
        rejected_proposals plain_opts True
          (quiet_world True [0, 9 / 10, 0, 1 / 2] one_arc_graph)
          (quiet_world True [0, 1 / 2] one_arc_graph) \<and>
        ifd_proposal plain_opts 0 [] [] (Fin 0) True
           (quiet_world True [0, 1 / 2] one_arc_graph) =
         Inr (\<lparr>del_move = True, was_accepted = True, changestats = []\<rparr>, w3) \<and>
        num_arcs (w_graph w3) = num_arcs (w_graph
          (quiet_world False [0, 1 / 2, 1 / 2, 0, 9 / 10, 0, 1 / 2] (allocate_digraph 2)))"
proof -
  obtain w3 where last:
    "ifd_proposal plain_opts 0 [] [] (Fin 0) True (quiet_world True [0, 1 / 2] one_arc_graph) =
       Inr (\<lparr>del_move = True, was_accepted = True, changestats = []\<rparr>, w3)"
    using round_delete_accepted by blast
  have between:
    "rejected_proposals plain_opts True (quiet_world True [0, 9 / 10, 0, 1 / 2] one_arc_graph)
       (quiet_world True [0, 1 / 2] one_arc_graph)"
    by (rule one_more [OF round_delete_rejected _ no_proposal]) simp
  have "num_arcs (w_graph w3) = num_arcs (w_graph
          (quiet_world False [0, 1 / 2, 1 / 2, 0, 9 / 10, 0, 1 / 2] (allocate_digraph 2)))"
    by (rule ifd_round_keeps_num_arcs [OF round_add_accepted _ _ between last]) simp_all
  then show ?thesis
    using round_add_accepted between last by blast
qed

section \<open>A delete move with nothing to delete\<close>

text \<open>
  In the citation regime the guard of the code applies: the step becomes an add move and
  the warning is written.
\<close>

lemma citation_switches_to_add:
  assumes "ifd_proposal opts n funcs theta aux performMove w = Inr (p, w')"
    and "forced_add opts w"
  shows "\<not> del_move p \<and> Warning_num_maxtermsender_arcs_zero \<in> set (warnings w')"
  using assms by (elim ifd_proposal_cases) (auto dest!: ifd_select_world)

text \<open>
  In the plain regime and in the snowball regime there is no guard: with a delete move
  pending and an empty arc list the code reads the entry \<open>int_urand(0)\<close> of that list.
\<close>

lemma plain_delete_without_arcs:
  assumes "\<not> useConditionalEstimation opts" and "\<not> citationERGM opts"
    and "isDelete w" and "allarcs (w_graph w) = []"
  shows "ifd_proposal opts n funcs theta aux performMove w = Inl Out_of_bounds \<or>
         ifd_proposal opts n funcs theta aux performMove w = Inl Prng_exhausted"
  using assms by (auto simp: ifd_proposal_def ifd_select_def Let_def split: list.splits)

lemma snowball_delete_without_arcs:
  assumes "useConditionalEstimation opts"
    and "isDelete w" and "allinnerarcs (w_graph w) = []"
  shows "\<exists>e. ifd_proposal opts n funcs theta aux performMove w = Inl e"
proof (cases "prng w")
  case Nil
  then show ?thesis
    using assms by (auto simp: ifd_proposal_def ifd_select_def Let_def)
next
  case (Cons u us)
  then show ?thesis
    using assms by (auto simp: ifd_proposal_def ifd_select_def Let_def)
qed

text \<open>
  Claim C8. In every regime a delete move with no eligible arc is to become an add move,
  with a warning. The code does this in the citation regime only. In the plain regime,
  a call with \<open>performMove = False\<close> and two proposals on the empty graph on two nodes
  (the situation of Algorithm S on an empty graph): the add move \<open>0 \<rightarrow> 1\<close> is accepted and
  not performed, the flag turns to delete, and the second proposal reads \<open>allarcs[0]\<close> of
  the empty arc list.
\<close>

theorem ifdSampler_deletes_from_empty_graph:
  "ifdSampler plain_opts 1 [changeReciprocity] [Fin 0] 2 False (Fin (1 / 10)) (Fin 0)
     (quiet_world False [0, 1 / 2, 1 / 2, 0, 1 / 2, 1 / 2] (allocate_digraph 2)) =
   Inl Out_of_bounds"
  by (simp add: world_defs sampler_defs changeReciprocity_def numeral_2_eq_2)

section \<open>The kind of move\<close>

lemma rejected_keeps_kind:
  assumes "ifd_proposal opts n funcs theta aux performMove w = Inr (p, w')"
    and "\<not> was_accepted p"
    and "ifd_proposal opts n' funcs' theta' aux' performMove' w' = Inr (p', w'')"
  shows "del_move p' = del_move p"
proof -
  have flag: "isDelete w' = del_move p"
    using ifd_proposal_kind [OF assms(1)] assms(2) by simp
  have "\<not> forced_add opts w'" if "del_move p"
  proof -
    have nf: "\<not> forced_add opts w"
      using ifd_proposal_kind [OF assms(1)] that by simp
    have "num_maxtermsender_arcs (w_graph w') = num_maxtermsender_arcs (w_graph w)"
      using assms(1,2) that
      by (elim ifd_proposal_cases)
         (auto dest!: ifd_select_world maxtermsender_count_restored split: if_splits)
    then show ?thesis
      using nf flag that ifd_proposal_kind [OF assms(1)] by (auto simp: forced_add_def)
  qed
  then show ?thesis
    using ifd_proposal_kind [OF assms(3)] flag by auto
qed

section \<open>A call of the sampler as a run of proposals\<close>

lemma ifd_loop_run:
  "ifd_loop opts n funcs theta aux pm k (w, loc) =
     (case ifd_run opts n funcs theta aux pm k w of
        Inl e \<Rightarrow> Inl e
      | Inr (ps, w') \<Rightarrow> Inr (w', foldl (tally n) loc ps))"
  by (induction k arbitrary: w loc)
     (auto simp: ifd_iteration_def split: sum.splits prod.splits)

lemma ifd_run_length:
  "ifd_run opts n funcs theta aux pm k w = Inr (ps, w') \<Longrightarrow> length ps = k"
  by (induction k arbitrary: w ps) (auto split: sum.splits prod.splits)

lemma tally_counts:
  "Ndel (foldl (tally n) loc ps) = Ndel loc + of_nat (count_del ps) \<and>
   Nadd (foldl (tally n) loc ps) = Nadd loc + of_nat (count_add ps)"
  by (induction ps arbitrary: loc) (auto simp: tally_def count_del_def count_add_def Let_def)

lemma count_del_add: "count_del ps + count_add ps = length ps"
  by (simp add: count_del_def count_add_def sum_length_filter_compl)

text \<open>
  A call that returns has made \<open>sampler_m\<close> proposals one after the other, starting from
  the world it was handed. \<open>Ndel\<close> and \<open>Nadd\<close> count the delete and the add proposals
  (accepted or not); the auxiliary parameter is updated once, from these counts; the flag,
  the graph and the generator are handed back as the last proposal left them.
\<close>

lemma ifdSampler_run:
  assumes "ifdSampler opts n funcs theta m pm K aux w = Inr r"
  shows "\<exists>ps w'. ifd_run opts n funcs theta aux pm m w = Inr (ps, w') \<and>
           count_del ps + count_add ps = m \<and>
           dzArc r = dsub (dbl_of_int (of_nat (count_del ps))) (dbl_of_int (of_nat (count_add ps))) \<and>
           aux_out r = ifd_aux_update K aux (of_nat (count_del ps)) (of_nat (count_add ps)) \<and>
           isDelete (world_out r) = isDelete w' \<and> w_graph (world_out r) = w_graph w' \<and>
           prng (world_out r) = prng w' \<and> printed (world_out r) = printed w'"
proof -
  obtain ps w' where run: "ifd_run opts n funcs theta aux pm m w = Inr (ps, w')"
    using assms by (auto simp: ifdSampler_def ifd_loop_run split: sum.splits prod.splits)
  have "length ps = m" using ifd_run_length [OF run] .
  then show ?thesis
    using assms run tally_counts [of n _ ps] count_del_add [of ps]
    by (auto simp: ifdSampler_def ifd_loop_run split: sum.splits prod.splits if_splits)
qed

section \<open>The kind of move, continued\<close>

text \<open>
  Claim C10, amended. (1) The kind of a proposal is the value of the flag at its start,
  except that the citation regime turns a pending delete move into an add move when
  \<open>num_maxtermsender_arcs\<close> is 0; the flag after the proposal differs from the kind
  proposed exactly when the proposal was accepted. In particular a proposal that starts
  with the flag at add (as the first proposal of a process does: \<^verbatim>\<open>main\<close> starts with
  the flag \<^verbatim>\<open>FALSE\<close>) is an add move. (2) After a rejected proposal the next proposal
  is of the same kind. (3) A call of the sampler makes its proposals from the world it
  is handed and hands back the flag as its last proposal left it: the flag lives in the
  process, not in the call.
\<close>

theorem ifd_kind_of_move:
  "(ifd_proposal opts n funcs theta aux pm w = Inr (p, w') \<longrightarrow>
      del_move p = (isDelete w \<and> \<not> forced_add opts w) \<and>
      isDelete w' = (del_move p \<noteq> was_accepted p)) \<and>
   (ifd_proposal opts n funcs theta aux pm w = Inr (p, w') \<and> \<not> was_accepted p \<and>
    ifd_proposal opts n2 funcs2 theta2 aux2 pm2 w' = Inr (p2, w2) \<longrightarrow>
      del_move p2 = del_move p) \<and>
   (ifdSampler opts n funcs theta m pm K aux w = Inr r \<longrightarrow>
      (\<exists>ps w3. ifd_run opts n funcs theta aux pm m w = Inr (ps, w3) \<and>
                isDelete (world_out r) = isDelete w3))"
proof -
  have kind: "ifd_proposal opts n funcs theta aux pm w = Inr (p, w') \<longrightarrow>
      del_move p = (isDelete w \<and> \<not> forced_add opts w) \<and>
      isDelete w' = (del_move p \<noteq> was_accepted p)"
    using ifd_proposal_kind by blast
  have same: "ifd_proposal opts n funcs theta aux pm w = Inr (p, w') \<and> \<not> was_accepted p \<and>
      ifd_proposal opts n2 funcs2 theta2 aux2 pm2 w' = Inr (p2, w2) \<longrightarrow>
      del_move p2 = del_move p"
    using rejected_keeps_kind by blast
  have "ifdSampler opts n funcs theta m pm K aux w = Inr r \<longrightarrow>
      (\<exists>ps w3. ifd_run opts n funcs theta aux pm m w = Inr (ps, w3) \<and>
                isDelete (world_out r) = isDelete w3)"
    using ifdSampler_run by blast
  then show ?thesis
    using kind same by blast
qed

lemma one_accepted_add_call:
  "\<exists>r. ifdSampler plain_opts 0 [] [] 1 True (Fin (1 / 10)) (Fin 0)
          (quiet_world False [0, 1 / 2, 1 / 2] (allocate_digraph 2)) = Inr r"
  by (simp add: world_defs sampler_defs)

theorem ifd_kind_of_move_witness:
  "ifd_proposal plain_opts 0 [] [] (Fin 1) True
     (quiet_world True [0, 9 / 10, 0, 1 / 2] one_arc_graph) =
   Inr (\<lparr>del_move = True, was_accepted = False, changestats = []\<rparr>,
        quiet_world True [0, 1 / 2] one_arc_graph) \<and>
   \<not> forced_add plain_opts (quiet_world True [0, 9 / 10, 0, 1 / 2] one_arc_graph) \<and>
   isDelete (quiet_world True [0, 1 / 2] one_arc_graph) \<and>
   (\<exists>w3. ifd_proposal plain_opts 0 [] [] (Fin 0) True
            (quiet_world True [0, 1 / 2] one_arc_graph) =
          Inr (\<lparr>del_move = True, was_accepted = True, changestats = []\<rparr>, w3) \<and>
          \<not> isDelete w3) \<and>
   (\<exists>r ps w3. ifdSampler plain_opts 0 [] [] 1 True (Fin (1 / 10)) (Fin 0)
                 (quiet_world False [0, 1 / 2, 1 / 2] (allocate_digraph 2)) = Inr r \<and>
               ifd_run plain_opts 0 [] [] (Fin 0) True 1
                 (quiet_world False [0, 1 / 2, 1 / 2] (allocate_digraph 2)) = Inr (ps, w3) \<and>
               isDelete (world_out r) = isDelete w3)"
proof -
  let ?p = "\<lparr>del_move = True, was_accepted = False, changestats = []\<rparr>"
  let ?q = "\<lparr>del_move = True, was_accepted = True, changestats = []\<rparr>"
  obtain w3 where last:
    "ifd_proposal plain_opts 0 [] [] (Fin 0) True (quiet_world True [0, 1 / 2] one_arc_graph) =
       Inr (?q, w3)"
    using round_delete_accepted by blast
  obtain r where call:
    "ifdSampler plain_opts 0 [] [] 1 True (Fin (1 / 10)) (Fin 0)
       (quiet_world False [0, 1 / 2, 1 / 2] (allocate_digraph 2)) = Inr r"
    using one_accepted_add_call by blast
  have first: "del_move ?p =
        (isDelete (quiet_world True [0, 9 / 10, 0, 1 / 2] one_arc_graph) \<and>
         \<not> forced_add plain_opts (quiet_world True [0, 9 / 10, 0, 1 / 2] one_arc_graph)) \<and>
      isDelete (quiet_world True [0, 1 / 2] one_arc_graph) = (del_move ?p \<noteq> was_accepted ?p)"
    using ifd_kind_of_move [where opts = plain_opts and n = 0 and funcs = "[]"
        and theta = "[]" and aux = "Fin 1" and pm = True
        and w = "quiet_world True [0, 9 / 10, 0, 1 / 2] one_arc_graph" and p = ?p
        and w' = "quiet_world True [0, 1 / 2] one_arc_graph"]
      round_delete_rejected by blast
  have "isDelete w3 = (del_move ?q \<noteq> was_accepted ?q)"
    using ifd_kind_of_move [where opts = plain_opts and n = 0 and funcs = "[]"
        and theta = "[]" and aux = "Fin 0" and pm = True
        and w = "quiet_world True [0, 1 / 2] one_arc_graph" and p = ?q and w' = w3]
      last by blast
  then have flipped: "\<not> isDelete w3" by simp
  have "\<exists>ps w4. ifd_run plain_opts 0 [] [] (Fin 0) True 1
                 (quiet_world False [0, 1 / 2, 1 / 2] (allocate_digraph 2)) = Inr (ps, w4) \<and>
               isDelete (world_out r) = isDelete w4"
    using ifd_kind_of_move [where opts = plain_opts and n = 0 and funcs = "[]"
        and theta = "[]" and aux = "Fin 0" and pm = True
        and w = "quiet_world False [0, 1 / 2, 1 / 2] (allocate_digraph 2)"
        and m = 1 and K = "Fin (1 / 10)" and r = r]
      call by blast
  then show ?thesis
    using first last flipped call round_delete_rejected by auto
qed

text \<open>
  The claim as stated fails in the citation regime. On two nodes with no arc, node 0
  the only node of the last term, and \<open>performMove = False\<close>: the add move \<open>0 \<rightarrow> 1\<close> is
  accepted and the flag turns to delete; the next proposal finds
  \<open>num_maxtermsender_arcs = 0\<close>, writes the warning and is an add move again.
\<close>

theorem ifd_kind_of_move_counterexample:
  "ifd_proposal citation_opts 0 [] [] (Fin 0) False
     (quiet_world False [0, 1 / 2, 1 / 2, 0, 1 / 2, 1 / 2] citation_graph) =
   Inr (\<lparr>del_move = False, was_accepted = True, changestats = []\<rparr>,
        quiet_world True [0, 1 / 2, 1 / 2] citation_graph) \<and>
   ifd_proposal citation_opts 0 [] [] (Fin 0) False
     (quiet_world True [0, 1 / 2, 1 / 2] citation_graph) =
   Inr (\<lparr>del_move = False, was_accepted = True, changestats = []\<rparr>,
        (quiet_world True [] citation_graph)
          \<lparr>warnings := [Warning_num_maxtermsender_arcs_zero]\<rparr>)"
  by (simp add: world_defs sampler_defs insertArc_all_maxtermsender_arcs_def)


section \<open>The step of the auxiliary parameter\<close>

text \<open>
  The counts \<open>Ndel\<close> and \<open>Nadd\<close> are C ints. As long as the square of their sum fits an
  int, the code computes the step of the specification.
\<close>

lemma sint_in_range:
  "- (2 ^ 31) \<le> x \<Longrightarrow> x < 2 ^ 31 \<Longrightarrow> sint (word_of_int x :: u32) = x"
  by (simp add: sint_sbintrunc' signed_take_bit_int_eq_self)

text \<open>Counts that fit a C int are read back unchanged.\<close>

lemma sint_difference:
  assumes "nd + na = m" and "m * m < 2 ^ 31"
  shows "sint ((of_nat nd :: u32) - of_nat na) = int nd - int na"
proof -
  have "m \<le> m * m" by (cases m) auto
  then have "m < 2 ^ 31" using assms(2) by linarith
  then have "int m < 2 ^ 31" by simp
  moreover have "int nd \<le> int m" "int na \<le> int m" using assms(1) by auto
  ultimately have "- (2 ^ 31) \<le> int nd - int na" "int nd - int na < 2 ^ 31"
    by linarith+
  then have "sint (word_of_int (int nd - int na) :: u32) = int nd - int na"
    by (rule sint_in_range)
  then show ?thesis by simp
qed

lemma sint_square:
  assumes "nd + na = m" and "m * m < 2 ^ 31"
  shows "sint (((of_nat nd :: u32) + of_nat na) * (of_nat nd + of_nat na)) = int (m * m)"
proof -
  have "int (m * m) < 2 ^ 31"
    using assms(2) by (simp only: of_nat_less_numeral_power_cancel_iff)
  moreover have "- (2 ^ 31) \<le> int (m * m)"
    by (rule order_trans [of _ 0]) simp_all
  ultimately have "sint (word_of_int (int (m * m)) :: u32) = int (m * m)"
    by (rule sint_in_range [rotated])
  moreover have "((of_nat nd :: u32) + of_nat na) * (of_nat nd + of_nat na) =
      word_of_int (int (m * m))"
    using assms(1) by (simp flip: of_nat_add of_nat_mult)
  ultimately show ?thesis by simp
qed

lemma ifd_aux_update_exact:
  assumes "(nd + na) * (nd + na) < 2 ^ 31"
  shows "ifd_aux_update (Fin k) (Fin v) (of_nat nd) (of_nat na) =
           Fin (spec_aux_update k v nd na)"
proof -
  have d: "sint ((of_nat nd :: u32) - of_nat na) = int nd - int na"
    using sint_difference [OF refl assms] .
  have s: "sint (((of_nat nd :: u32) + of_nat na) * (of_nat nd + of_nat na)) =
      int ((nd + na) * (nd + na))"
    using sint_square [OF refl assms] .
  have pos: "nd \<noteq> na \<Longrightarrow> 0 < nd + na" by auto
  show ?thesis
    using pos
    by (auto simp: ifd_aux_update_def ifd_aux_param_step_def dbl_of_int_def d s dsub_def
          spec_aux_update_def power2_eq_square)
qed

lemma sint_count:
  assumes "n < 2 ^ 31"
  shows "sint (of_nat n :: u32) = int n"
proof -
  have "int n < 2 ^ 31" using assms by simp
  moreover have "- (2 ^ 31) \<le> int n"
    by (rule order_trans [of _ 0]) simp_all
  ultimately have "sint (word_of_int (int n) :: u32) = int n"
    by (rule sint_in_range [rotated])
  then show ?thesis by simp
qed

lemma dzArc_exact:
  assumes "(nd + na) * (nd + na) < 2 ^ 31"
  shows "dsub (dbl_of_int (of_nat nd)) (dbl_of_int (of_nat na)) = Fin (real nd - real na)"
proof -
  have "nd + na \<le> (nd + na) * (nd + na)" by (cases "nd + na") auto
  then have "nd + na < 2 ^ 31" using assms by linarith
  then have "nd < 2 ^ 31" "na < 2 ^ 31" by simp_all
  then show ?thesis by (simp add: dbl_of_int_def dsub_def sint_count)
qed

text \<open>
  Within that range a call that returns has moved \<open>V\<close> as the specification says, and
  \<open>dzArc\<close> is the difference of the two counts.
\<close>

lemma ifdSampler_aux_in_range:
  assumes "ifdSampler opts n funcs theta m pm (Fin k) (Fin v) w = Inr r"
    and "m * m < 2 ^ 31"
  shows "\<exists>nd na. nd + na = m \<and> aux_out r = Fin (spec_aux_update k v nd na) \<and>
           dzArc r = Fin (real nd - real na)"
proof -
  obtain ps where m: "count_del ps + count_add ps = m"
    and z: "dzArc r = dsub (dbl_of_int (of_nat (count_del ps))) (dbl_of_int (of_nat (count_add ps)))"
    and a: "aux_out r = ifd_aux_update (Fin k) (Fin v) (of_nat (count_del ps)) (of_nat (count_add ps))"
    using ifdSampler_run [OF assms(1)] by blast
  have small: "(count_del ps + count_add ps) * (count_del ps + count_add ps) < 2 ^ 31"
    using assms(2) m by simp
  show ?thesis
    using m a z ifd_aux_update_exact [OF small] dzArc_exact [OF small] by metis
qed

text \<open>
  A call of 50000 proposals, all of them add moves that are rejected: on the empty graph
  on two nodes without change statistics the acceptance total is \<open>V = - 1\<close>, and every
  third draw is \<open>9 / 10 > exp (- 1)\<close>.
\<close>

lemma rejected_add_step:
  "ifd_proposal plain_opts 0 [] [] (Fin (- 1)) pm
     (quiet_world False (0 # 1 / 2 # 9 / 10 # rest) (allocate_digraph 2)) =
   Inr (\<lparr>del_move = False, was_accepted = False, changestats = []\<rparr>,
        quiet_world False rest (allocate_digraph 2))"
  by (simp add: world_defs sampler_defs reject_at_minus_one)

lemma rejected_adds_run:
  "ifd_run plain_opts 0 [] [] (Fin (- 1)) pm k
     (quiet_world False (concat (replicate k [0, 1 / 2, 9 / 10])) (allocate_digraph 2)) =
   Inr (replicate k \<lparr>del_move = False, was_accepted = False, changestats = []\<rparr>,
        quiet_world False [] (allocate_digraph 2))"
  by (induction k) (simp_all add: rejected_add_step)

lemma counts_of_rejected_adds:
  "count_del (replicate k \<lparr>del_move = False, was_accepted = False, changestats = []\<rparr>) = 0 \<and>
   count_add (replicate k \<lparr>del_move = False, was_accepted = False, changestats = []\<rparr>) = k"
  by (simp add: count_del_def count_add_def)

text \<open>
  Claim C5, against the code: the denominator \<^verbatim>\<open>(Ndel+Nadd)*(Ndel+Nadd)\<close> is a product of two
  C ints. In a call of \<open>sampler_m = 50000\<close> proposals the product \<open>2500000000\<close> does not fit
  32 bits and is read as \<open>- 1794967296\<close>. With \<open>ifd_K = 1 / 10\<close>, \<open>V = - 1\<close>, no delete move
  and 50000 add moves the specification raises \<open>V\<close> by \<open>1 / 10\<close>, to \<open>- 9 / 10\<close>; the code
  lowers it to about \<open>- 1.139\<close>. The value of \<open>dzArc\<close> is \<open>Ndel - Nadd = - 50000\<close>, as
  specified.
\<close>

theorem ifd_aux_step_overflows:
  "map_sum id (\<lambda>r. (aux_out r, dzArc r))
     (ifdSampler plain_opts 0 [] [] 50000 False (Fin (1 / 10)) (Fin (- 1))
        (quiet_world False (concat (replicate 50000 [0, 1 / 2, 9 / 10])) (allocate_digraph 2))) =
   Inr (Fin (- (15976307 / 14023182)), Fin (- 50000)) \<and>
   spec_aux_update (1 / 10) (- 1) 0 50000 = - (9 / 10)"
  by (simp add: ifdSampler_def ifd_loop_run rejected_adds_run tally_counts
      counts_of_rejected_adds ifd_aux_update_def ifd_aux_param_step_def spec_aux_update_def
      dbl_of_int_def dsub_def)


section \<open>Algorithm S\<close>

text \<open>
  One position of one iteration: the code's conditional expressions
  \<^verbatim>\<open>(dzA[l] < 0 ? -1 : 1)\<close> and \<^verbatim>\<open>sum < 0 || sum > 0\<close> against the sign function and the
  test \<open>sum = 0\<close> of the specification, for all values of a double.
\<close>

lemma code_step_eq:
  "dmul (dmul (dmul (Fin (if dlt (dsub d a) (Fin 0) then - 1 else 1))
                    (if dlt (dadd a d) (Fin 0) \<or> dlt (Fin 0) (dadd a d)
                     then ddiv ACA (dmul (dadd a d) (dadd a d)) else Fin 0))
              (dsub d a)) (dsub d a) =
   spec_S_step ACA a d"
  by (cases a; cases d; cases ACA)
     (auto simp: spec_S_step_def dsub_def inf_times_def Let_def sgn_if mult_less_0_iff
        zero_less_mult_iff)

text \<open>The loop over the positions \<open>l = 0, \<dots>, n - 1\<close>, from position \<open>k\<close> on.\<close>

lemma take_Suc_update:
  "k < length xs \<Longrightarrow> take (Suc k) (xs[k := v]) = take k xs @ [v]"
  by (simp add: take_Suc_conv_app_nth)

lemma algS_positions_from:
  assumes "k \<le> n" and "length theta = n" and "length D0 = n"
  shows "algS_positions ACA adds dels [k..<n] (theta, D0) =
           (take k theta @ map (\<lambda>l. dadd (theta ! l) (spec_S_step ACA (adds ! l) (dels ! l))) [k..<n],
            take k D0 @ map (\<lambda>l. dadd (D0 ! l)
                  (dmul (dsub (dels ! l) (adds ! l)) (dsub (dels ! l) (adds ! l)))) [k..<n])"
  using assms
proof (induction "n - k" arbitrary: k theta D0)
  case 0
  then show ?case by simp
next
  case (Suc d)
  then have k: "k < n" and d: "d = n - Suc k" by auto
  have upt: "[k..<n] = k # [Suc k..<n]" using k by (simp add: upt_conv_Cons)
  let ?t = "dadd (theta ! k) (spec_S_step ACA (adds ! k) (dels ! k))"
  let ?d = "dadd (D0 ! k) (dmul (dsub (dels ! k) (adds ! k)) (dsub (dels ! k) (adds ! k)))"
  have step: "algS_positions ACA adds dels [k..<n] (theta, D0) =
      algS_positions ACA adds dels [Suc k..<n] (theta[k := ?t], D0[k := ?d])"
    by (simp only: upt algS_positions.simps Let_def code_step_eq)
  have "algS_positions ACA adds dels [Suc k..<n] (theta[k := ?t], D0[k := ?d]) =
      (take (Suc k) (theta[k := ?t]) @
         map (\<lambda>l. dadd (theta[k := ?t] ! l) (spec_S_step ACA (adds ! l) (dels ! l))) [Suc k..<n],
       take (Suc k) (D0[k := ?d]) @
         map (\<lambda>l. dadd (D0[k := ?d] ! l)
               (dmul (dsub (dels ! l) (adds ! l)) (dsub (dels ! l) (adds ! l)))) [Suc k..<n])"
    using Suc.prems k d by (intro Suc.hyps(1)) auto
  moreover have "map (\<lambda>l. dadd (theta[k := ?t] ! l) (spec_S_step ACA (adds ! l) (dels ! l)))
        [Suc k..<n] =
      map (\<lambda>l. dadd (theta ! l) (spec_S_step ACA (adds ! l) (dels ! l))) [Suc k..<n]"
    by (rule map_cong) auto
  moreover have "map (\<lambda>l. dadd (D0[k := ?d] ! l)
               (dmul (dsub (dels ! l) (adds ! l)) (dsub (dels ! l) (adds ! l)))) [Suc k..<n] =
      map (\<lambda>l. dadd (D0 ! l)
               (dmul (dsub (dels ! l) (adds ! l)) (dsub (dels ! l) (adds ! l)))) [Suc k..<n]"
    by (rule map_cong) auto
  moreover have "take (Suc k) (theta[k := ?t]) = take k theta @ [?t]"
    "take (Suc k) (D0[k := ?d]) = take k D0 @ [?d]"
    using k Suc.prems by (simp_all add: take_Suc_update)
  moreover have "map (\<lambda>l. dadd (theta ! l) (spec_S_step ACA (adds ! l) (dels ! l))) [k..<n] =
      ?t # map (\<lambda>l. dadd (theta ! l) (spec_S_step ACA (adds ! l) (dels ! l))) [Suc k..<n]"
    "map (\<lambda>l. dadd (D0 ! l)
               (dmul (dsub (dels ! l) (adds ! l)) (dsub (dels ! l) (adds ! l)))) [k..<n] =
      ?d # map (\<lambda>l. dadd (D0 ! l)
               (dmul (dsub (dels ! l) (adds ! l)) (dsub (dels ! l) (adds ! l)))) [Suc k..<n]"
    by (simp_all add: upt)
  ultimately show ?case
    by (simp only: step append_Cons append_Nil append_assoc)
qed

lemma algS_positions_spec:
  assumes "length theta = n" and "length D0 = n"
  shows "algS_positions ACA adds dels [0..<n] (theta, D0) =
           spec_S_iteration ACA n adds dels (theta, D0)"
  using algS_positions_from [of 0 n theta D0 ACA adds dels] assms
  by (simp add: spec_S_iteration_def)

lemma spec_S_iteration_length:
  "length (fst (spec_S_iteration ACA n adds dels td)) = n \<and>
   length (snd (spec_S_iteration ACA n adds dels td)) = n"
  by (simp add: spec_S_iteration_def)

lemma algS_loop_spec:
  assumes "length (s_theta st) = n" and "length (s_D0 st) = n"
  shows "algS_loop b u opts n funcs m ACA K k st = spec_S_loop b u opts n funcs m ACA K k st"
  using assms
proof (induction k arbitrary: st)
  case 0
  then show ?case by simp
next
  case (Suc k)
  show ?case
  proof (cases "call_sampler b u opts n funcs (s_theta st) m False K (s_aux st) (s_world st)")
    case (Inl e)
    then show ?thesis by simp
  next
    case (Inr r)
    let ?it = "spec_S_iteration ACA n (add_out r) (del_out r) (s_theta st, s_D0 st)"
    have pos: "algS_positions ACA (add_out r) (del_out r) [0..<n] (s_theta st, s_D0 st) = ?it"
      using Suc.prems by (rule algS_positions_spec)
    have "algS_loop b u opts n funcs m ACA K k
            \<lparr>s_theta = fst ?it, s_D0 = snd ?it, s_aux = aux_out r, s_world = world_out r\<rparr> =
          spec_S_loop b u opts n funcs m ACA K k
            \<lparr>s_theta = fst ?it, s_D0 = snd ?it, s_aux = aux_out r, s_world = world_out r\<rparr>"
      by (rule Suc.IH) (simp_all add: spec_S_iteration_length)
    then show ?thesis
      using Inr pos by (simp add: case_prod_beta)
  qed
qed

text \<open>
  Claim C4: Algorithm S as the code has it computes what section 4.5 of the
  specification says, on every input: starting from \<open>theta = 0\<close> and \<open>D0 = 0\<close>, every
  iteration calls the sampler with \<open>performMove = false\<close> and, at every position \<open>l\<close>, adds
  \<open>dzA\<^sup>2\<close> to \<open>D0\<close> and \<open>sign(dzA) * da * dzA\<^sup>2\<close> to \<open>theta\<close>, where
  \<open>dzA = delChangeStats - addChangeStats\<close>, \<open>sum = addChangeStats + delChangeStats\<close> and
  \<open>da = ACA_S / sum\<^sup>2\<close>, or \<open>0\<close> when \<open>sum = 0\<close>; after the last iteration
  \<open>Dmean = sampler_m / D0\<close> at every position. A fault of the sampler ends both in the
  same way.
\<close>

theorem algorithm_S_as_specified:
  "algorithm_S basicSampler w n funcs M1 sampler_m ACA useIFD ifdK opts =
   spec_algorithm_S basicSampler w n funcs M1 sampler_m ACA useIFD ifdK opts"
  by (simp add: algorithm_S_def spec_algorithm_S_def algS_loop_spec)


section \<open>The Borisenko update in Algorithm EE\<close>

text \<open>
  The code adds \<^verbatim>\<open>(dzA[l] < 0 ? 1 : -1) * learningRate * MAX(fabs(theta[l]), minTheta)\<close> to
  \<open>theta\<close>: that is the update of the specification with a sign that is \<open>- 1\<close> below zero
  and \<open>1\<close> everywhere else.
\<close>

lemma borisenko_step_eq:
  "dadd t (dmul (dmul (Fin (if dlt z (Fin 0) then 1 else - 1)) lr) mx) =
   dsub t (dmul (dmul (two_way_sign z) lr) mx)"
  by (cases t; cases lr; cases mx)
     (auto simp: two_way_sign_def dsub_def inf_times_def)

text \<open>The loop over the positions inside one inner iteration, from position \<open>k\<close> on.\<close>

lemma algEE_positions_from:
  assumes "k \<le> n" and "length (e_theta st) = n" and "length (e_dzA st) = n"
    and "length (e_thetamatrix st) = n"
  shows "algEE_positions ps adds dels t [k..<n] st =
           st\<lparr>e_dzA := take k (e_dzA st) @ map (spec_dzA (e_dzA st) adds dels) [k..<n],
              e_theta := take k (e_theta st) @
                map (\<lambda>l. code_theta ps (e_theta st ! l) (e_D0 st ! l)
                            (spec_dzA (e_dzA st) adds dels l)) [k..<n],
              e_thetamatrix := take k (e_thetamatrix st) @
                map (\<lambda>l. (e_thetamatrix st ! l)
                            [t := code_theta ps (e_theta st ! l) (e_D0 st ! l)
                                    (spec_dzA (e_dzA st) adds dels l)]) [k..<n]\<rparr>"
  using assms
proof (induction "n - k" arbitrary: k st)
  case 0
  then show ?case by simp
next
  case (Suc d)
  then have k: "k < n" and d: "d = n - Suc k" by auto
  have upt: "[k..<n] = k # [Suc k..<n]" using k by (simp add: upt_conv_Cons)
  let ?z = "spec_dzA (e_dzA st) adds dels k"
  let ?th = "code_theta ps (e_theta st ! k) (e_D0 st ! k) ?z"
  let ?st1 = "st\<lparr>e_dzA := (e_dzA st)[k := ?z], e_theta := (e_theta st)[k := ?th],
                  e_thetamatrix := (e_thetamatrix st)[k := (e_thetamatrix st ! k)[t := ?th]]\<rparr>"
  have step: "algEE_positions ps adds dels t [k..<n] st =
      algEE_positions ps adds dels t [Suc k..<n] ?st1"
    by (simp only: upt algEE_positions.simps Let_def code_theta_def spec_dzA_def)
  have ih: "algEE_positions ps adds dels t [Suc k..<n] ?st1 =
      ?st1\<lparr>e_dzA := take (Suc k) (e_dzA ?st1) @ map (spec_dzA (e_dzA ?st1) adds dels) [Suc k..<n],
           e_theta := take (Suc k) (e_theta ?st1) @
             map (\<lambda>l. code_theta ps (e_theta ?st1 ! l) (e_D0 ?st1 ! l)
                         (spec_dzA (e_dzA ?st1) adds dels l)) [Suc k..<n],
           e_thetamatrix := take (Suc k) (e_thetamatrix ?st1) @
             map (\<lambda>l. (e_thetamatrix ?st1 ! l)
                         [t := code_theta ps (e_theta ?st1 ! l) (e_D0 ?st1 ! l)
                                 (spec_dzA (e_dzA ?st1) adds dels l)]) [Suc k..<n]\<rparr>"
    using Suc.prems k d by (intro Suc.hyps(1)) auto
  have m1: "map (spec_dzA ((e_dzA st)[k := ?z]) adds dels) [Suc k..<n] =
      map (spec_dzA (e_dzA st) adds dels) [Suc k..<n]"
    by (rule map_cong) (auto simp: spec_dzA_def)
  have m2: "map (\<lambda>l. code_theta ps ((e_theta st)[k := ?th] ! l) (e_D0 st ! l)
                         (spec_dzA ((e_dzA st)[k := ?z]) adds dels l)) [Suc k..<n] =
      map (\<lambda>l. code_theta ps (e_theta st ! l) (e_D0 st ! l)
                         (spec_dzA (e_dzA st) adds dels l)) [Suc k..<n]"
    by (rule map_cong) (auto simp: spec_dzA_def)
  have m3: "map (\<lambda>l. ((e_thetamatrix st)[k := (e_thetamatrix st ! k)[t := ?th]] ! l)
                         [t := code_theta ps ((e_theta st)[k := ?th] ! l) (e_D0 st ! l)
                                 (spec_dzA ((e_dzA st)[k := ?z]) adds dels l)]) [Suc k..<n] =
      map (\<lambda>l. (e_thetamatrix st ! l)
                         [t := code_theta ps (e_theta st ! l) (e_D0 st ! l)
                                 (spec_dzA (e_dzA st) adds dels l)]) [Suc k..<n]"
    by (rule map_cong) (auto simp: spec_dzA_def)
  show ?case
    using k Suc.prems
    by (simp only: step ih) (simp add: take_Suc_update m1 m2 m3 upt)
qed

lemma algEE_positions_all:
  assumes "length (e_theta st) = n" and "length (e_dzA st) = n"
    and "length (e_thetamatrix st) = n"
  shows "algEE_positions ps adds dels t [0..<n] st =
           st\<lparr>e_dzA := map (spec_dzA (e_dzA st) adds dels) [0..<n],
              e_theta := map (\<lambda>l. code_theta ps (e_theta st ! l) (e_D0 st ! l)
                            (spec_dzA (e_dzA st) adds dels l)) [0..<n],
              e_thetamatrix :=
                map (\<lambda>l. (e_thetamatrix st ! l)
                            [t := code_theta ps (e_theta st ! l) (e_D0 st ! l)
                                    (spec_dzA (e_dzA st) adds dels l)]) [0..<n]\<rparr>"
  using algEE_positions_from [of 0 n st ps adds dels t] assms by simp

lemma code_theta_borisenko:
  "useBorisenkoUpdate ps \<Longrightarrow> code_theta ps t D z = spec_borisenko two_way_sign ps t z"
  by (simp add: code_theta_def spec_borisenko_def borisenko_step_eq)

text \<open>Away from zero and NaN the two-valued sign is the sign function.\<close>

lemma two_way_sign_is_sign:
  "z \<noteq> Fin 0 \<Longrightarrow> z \<noteq> NaN \<Longrightarrow> two_way_sign z = dsign z"
  by (cases z) (auto simp: two_way_sign_def sgn_if)

text \<open>
  Claim C6, amended. In Algorithm EE with \<open>useBorisenkoUpdate\<close>, an inner iteration
  whose sampler call returns first adds \<open>addChangeStats - delChangeStats\<close> to the
  accumulator \<open>dzA\<close> the previous iteration left (it is not reset), at every position
  \<open>l\<close>, and then sets \<open>theta \<leftarrow> theta - s(dzA) * learningRate * max(|theta|, minTheta)\<close>
  where \<open>s(dzA)\<close> is \<open>- 1\<close> if \<open>dzA < 0\<close> and \<open>1\<close> otherwise. Where \<open>dzA\<close> is neither zero nor
  NaN this is the update with \<open>sign(dzA)\<close>; where \<open>dzA = 0\<close> the step is
  \<open>- learningRate * max(|theta|, minTheta)\<close>, not zero.
\<close>

theorem borisenko_inner_step:
  assumes "useBorisenkoUpdate ps"
    and "length (e_theta st) = n" and "length (e_dzA st) = n"
    and "length (e_thetamatrix st) = n"
    and "call_sampler b u opts n funcs (e_theta st) m True K (e_aux st) (e_world st) = Inr r"
    and "l < n"
  shows "\<exists>st'. algEE_inner_loop b u opts n funcs m K ps [tinner] st = Inr st' \<and>
               algEE_inner_loop b u opts n funcs m K ps (tinner # ts) st =
                 algEE_inner_loop b u opts n funcs m K ps ts st' \<and>
               e_dzA st' ! l = dadd (e_dzA st ! l) (dsub (add_out r ! l) (del_out r ! l)) \<and>
               e_theta st' ! l =
                 spec_borisenko two_way_sign ps (e_theta st ! l) (e_dzA st' ! l) \<and>
               (e_dzA st' ! l \<noteq> Fin 0 \<and> e_dzA st' ! l \<noteq> NaN \<longrightarrow>
                  e_theta st' ! l = spec_borisenko dsign ps (e_theta st ! l) (e_dzA st' ! l))"
proof -
  let ?st0 = "st\<lparr>e_aux := aux_out r, e_world := world_out r\<rparr>"
  let ?st' = "algEE_positions ps (add_out r) (del_out r) tinner [0..<n] ?st0"
  have all: "?st' =
      ?st0\<lparr>e_dzA := map (spec_dzA (e_dzA ?st0) (add_out r) (del_out r)) [0..<n],
           e_theta := map (\<lambda>l. code_theta ps (e_theta ?st0 ! l) (e_D0 ?st0 ! l)
                            (spec_dzA (e_dzA ?st0) (add_out r) (del_out r) l)) [0..<n],
           e_thetamatrix :=
             map (\<lambda>l. (e_thetamatrix ?st0 ! l)
                         [tinner := code_theta ps (e_theta ?st0 ! l) (e_D0 ?st0 ! l)
                                 (spec_dzA (e_dzA ?st0) (add_out r) (del_out r) l)]) [0..<n]\<rparr>"
    using assms(2-4) by (intro algEE_positions_all) simp_all
  have z: "e_dzA ?st' ! l = dadd (e_dzA st ! l) (dsub (add_out r ! l) (del_out r ! l))"
    using assms(6) by (simp add: all spec_dzA_def)
  have t: "e_theta ?st' ! l = spec_borisenko two_way_sign ps (e_theta st ! l) (e_dzA ?st' ! l)"
    using assms(1,6) by (simp add: all code_theta_borisenko)
  have one: "algEE_inner_loop b u opts n funcs m K ps [tinner] st = Inr ?st'"
    using assms(5) by simp
  have more: "algEE_inner_loop b u opts n funcs m K ps (tinner # ts) st =
        algEE_inner_loop b u opts n funcs m K ps ts ?st'"
    using assms(5) by simp
  have "e_dzA ?st' ! l \<noteq> Fin 0 \<and> e_dzA ?st' ! l \<noteq> NaN \<longrightarrow>
      e_theta ?st' ! l = spec_borisenko dsign ps (e_theta st ! l) (e_dzA ?st' ! l)"
    using t two_way_sign_is_sign [of "e_dzA ?st' ! l"] by (simp add: spec_borisenko_def)
  then show ?thesis
    using one more z t by blast
qed

text \<open>
  One inner step on the empty graph on two nodes with the single parameter Arc,
  \<open>theta = 1\<close> and \<open>dzA = 0\<close>: the add move \<open>0 \<rightarrow> 1\<close> is accepted, \<open>dzA\<close> becomes \<open>1\<close> and
  \<open>theta\<close> becomes \<open>1 - 1 / 10 * max (1, 1 / 100) = 9 / 10\<close>.
\<close>

lemma borisenko_call:
  "\<exists>r. call_sampler no_basic_sampler True plain_opts 1 [changeArc] [Fin 1] 1 True
          (Fin (1 / 10)) (Fin 0) (quiet_world False [0, 1 / 2, 0] (allocate_digraph 2)) = Inr r \<and>
        add_out r = [Fin 1] \<and> del_out r = [Fin 0]"
  by (simp add: call_sampler_def world_defs sampler_defs changeArc_def)

theorem borisenko_inner_step_witness:
  "\<exists>st'. algEE_inner_loop no_basic_sampler True plain_opts 1 [changeArc] 1 (Fin (1 / 10))
            borisenko_params [0]
            (one_position (Fin 1) (Fin 0)
               (quiet_world False [0, 1 / 2, 0] (allocate_digraph 2))) = Inr st' \<and>
         e_dzA st' ! 0 = Fin 1 \<and> e_theta st' ! 0 = Fin (9 / 10)"
proof -
  let ?st = "one_position (Fin 1) (Fin 0) (quiet_world False [0, 1 / 2, 0] (allocate_digraph 2))"
  obtain r where r: "call_sampler no_basic_sampler True plain_opts 1 [changeArc] (e_theta ?st) 1
      True (Fin (1 / 10)) (e_aux ?st) (e_world ?st) = Inr r"
    and adds: "add_out r = [Fin 1]" and dels: "del_out r = [Fin 0]"
    using borisenko_call by (auto simp: one_position_def)
  have "\<exists>st'. algEE_inner_loop no_basic_sampler True plain_opts 1 [changeArc] 1 (Fin (1 / 10))
            borisenko_params [0] ?st = Inr st' \<and>
          algEE_inner_loop no_basic_sampler True plain_opts 1 [changeArc] 1 (Fin (1 / 10))
            borisenko_params [0] ?st =
          algEE_inner_loop no_basic_sampler True plain_opts 1 [changeArc] 1 (Fin (1 / 10))
            borisenko_params [] st' \<and>
          e_dzA st' ! 0 = dadd (e_dzA ?st ! 0) (dsub (add_out r ! 0) (del_out r ! 0)) \<and>
          e_theta st' ! 0 =
            spec_borisenko two_way_sign borisenko_params (e_theta ?st ! 0) (e_dzA st' ! 0) \<and>
          (e_dzA st' ! 0 \<noteq> Fin 0 \<and> e_dzA st' ! 0 \<noteq> NaN \<longrightarrow>
             e_theta st' ! 0 =
               spec_borisenko dsign borisenko_params (e_theta ?st ! 0) (e_dzA st' ! 0))"
    by (rule borisenko_inner_step [where r = r and n = 1])
       (use r in \<open>simp_all add: borisenko_params_def one_position_def\<close>)
  then obtain st' where
    run: "algEE_inner_loop no_basic_sampler True plain_opts 1 [changeArc] 1 (Fin (1 / 10))
       borisenko_params [0] ?st = Inr st'"
    and z: "e_dzA st' ! 0 = dadd (e_dzA ?st ! 0) (dsub (add_out r ! 0) (del_out r ! 0))"
    and t: "e_dzA st' ! 0 \<noteq> Fin 0 \<and> e_dzA st' ! 0 \<noteq> NaN \<longrightarrow>
       e_theta st' ! 0 = spec_borisenko dsign borisenko_params (e_theta ?st ! 0) (e_dzA st' ! 0)"
    by blast
  have z1: "e_dzA st' ! 0 = Fin 1"
    using z adds dels by (simp add: one_position_def dsub_def)
  have "e_theta st' ! 0 = Fin (9 / 10)"
    using t z1
    by (simp add: spec_borisenko_def borisenko_params_def one_position_def MAX_d_def dsub_def)
  then show ?thesis
    using run z1 by blast
qed

text \<open>
  The claim as stated fails where \<open>dzA = 0\<close>. With the single parameter Reciprocity on
  the empty graph the accepted add move has change statistic 0, so \<open>dzA\<close> stays 0; the
  code still moves \<open>theta\<close> from \<open>1\<close> to \<open>9 / 10\<close>, while the update with the sign function
  leaves it at \<open>1\<close>.
\<close>

theorem borisenko_inner_step_counterexample:
  "map_sum id (\<lambda>st. (e_dzA st, e_theta st))
     (algEE_inner_loop no_basic_sampler True plain_opts 1 [changeReciprocity] 1 (Fin (1 / 10))
        borisenko_params [0]
        (one_position (Fin 1) (Fin 0)
           (quiet_world False [0, 1 / 2, 1 / 2] (allocate_digraph 2)))) =
   Inr ([Fin 0], [Fin (9 / 10)]) \<and>
   spec_borisenko dsign borisenko_params (Fin 1) (Fin 0) = Fin 1"
  by (simp add: call_sampler_def world_defs sampler_defs changeReciprocity_def
      borisenko_params_def one_position_def spec_borisenko_def MAX_d_def)


section \<open>A call of the IFD sampler without moves\<close>

text \<open>
  With \<open>performMove = False\<close> an add proposal does not touch the graph; a delete proposal
  removes its arc for the computation of the change statistics and inserts it again.
\<close>

text \<open>The two-path counters: subtracting and adding one along the same paths.\<close>

lemma bump_apply: "bump m d ps p = m p + d * of_nat (count_list ps p)"
  by (induction ps arbitrary: m) (auto simp: bump_def algebra_simps)

lemma bump_cancel: "bump (bump m (- 1) ps) 1 ps = m"
  by (rule ext) (simp add: bump_apply)

text \<open>
  Removal from a flat arc list moves the last entry into the gap; appending the removed
  entry afterwards gives the same entries, possibly in another order.
\<close>

lemma mset_swap_remove:
  assumes "a < length xs" and "xs ! a = x"
  shows "mset (swap_remove xs a @ [x]) = mset xs"
proof (cases "a = length xs - 1")
  case True
  have ne: "xs \<noteq> []" using assms(1) by auto
  have l: "last xs = xs ! a" using True by (simp add: last_conv_nth [OF ne])
  have "xs[a := last xs] = xs"
    using assms(1) by (simp add: l)
  moreover have "x = last xs"
    using assms(2) by (simp add: l)
  ultimately show ?thesis using ne
    by (simp add: swap_remove_def flip: mset_append)
next
  case False
  then have a: "a < length (butlast xs)" using assms(1) by simp
  have ne: "xs \<noteq> []" using assms(1) by auto
  have "butlast (xs[a := last xs]) = (butlast xs)[a := last xs]"
    using False by (simp add: butlast_list_update)
  moreover have "butlast xs ! a = x"
    using a assms(2) by (simp add: nth_butlast)
  moreover have "mset xs = mset (butlast xs) + {#last xs#}"
    using ne by (metis append_butlast_last_id mset.simps(1) mset.simps(2) mset_append)
  moreover have "x \<in># mset (butlast xs)"
    using a \<open>butlast xs ! a = x\<close> nth_mem [of a "butlast xs"] by simp
  ultimately show ?thesis
    using a by (simp add: swap_remove_def mset_update insert_DiffM)
qed

lemma mset_remove1_append: "x \<in> set xs \<Longrightarrow> mset (remove1 x xs @ [x]) = mset xs"
  by simp

text \<open>Removing an arc and inserting it again.\<close>

lemma removeArc_insertArc:
  assumes "removeArc g i j = Inr g1"
  shows "same_graph g (insertArc g1 i j)"
  using assms
  by (auto simp: removeArc_def insertArc_def updateTwoPathsMatrices_def Let_def same_graph_def
        bump_cancel split: if_splits)

lemma mset_swap_remove_add:
  assumes "a < length xs" and "xs ! a = x"
  shows "add_mset x (mset (swap_remove xs a)) = mset xs"
  using mset_swap_remove [OF assms] by simp

text \<open>What \<^verbatim>\<open>removeArc\<close> leaves alone.\<close>

lemma removeArc_other_fields:
  assumes "removeArc g i j = Inr g0"
  shows "allarcs g0 = allarcs g \<and> zone g0 = zone g \<and> prev_wave_degree g0 = prev_wave_degree g \<and>
         num_inner_arcs g0 = num_inner_arcs g \<and> allinnerarcs g0 = allinnerarcs g \<and>
         num_maxtermsender_arcs g0 = num_maxtermsender_arcs g \<and>
         all_maxtermsender_arcs g0 = all_maxtermsender_arcs g"
  using assms
  by (auto simp: removeArc_def updateTwoPathsMatrices_def Let_def split: if_splits)

lemma insertArc_other_fields:
  "allarcs (insertArc g i j) = allarcs g \<and> zone (insertArc g i j) = zone g \<and>
   prev_wave_degree (insertArc g i j) = prev_wave_degree g \<and>
   num_inner_arcs (insertArc g i j) = num_inner_arcs g \<and>
   allinnerarcs (insertArc g i j) = allinnerarcs g \<and>
   num_maxtermsender_arcs (insertArc g i j) = num_maxtermsender_arcs g \<and>
   all_maxtermsender_arcs (insertArc g i j) = all_maxtermsender_arcs g"
  by (simp add: insertArc_def updateTwoPathsMatrices_def Let_def)

text \<open>\<^verbatim>\<open>insertArc\<close> does not read the fields the variants maintain.\<close>

lemma insertArc_allarcs_update:
  "insertArc (g\<lparr>allarcs := xs\<rparr>) i j = (insertArc g i j)\<lparr>allarcs := xs\<rparr>"
  by (simp add: insertArc_def updateTwoPathsMatrices_def Let_def)

lemma insertArc_inner_update:
  "insertArc (g\<lparr>num_inner_arcs := c, allinnerarcs := xs, prev_wave_degree := d\<rparr>) i j =
   (insertArc g i j)\<lparr>num_inner_arcs := c, allinnerarcs := xs, prev_wave_degree := d\<rparr>"
  by (simp add: insertArc_def updateTwoPathsMatrices_def Let_def)

lemma insertArc_maxtermsender_update:
  "insertArc (g\<lparr>num_maxtermsender_arcs := c, all_maxtermsender_arcs := xs\<rparr>) i j =
   (insertArc g i j)\<lparr>num_maxtermsender_arcs := c, all_maxtermsender_arcs := xs\<rparr>"
  by (simp add: insertArc_def updateTwoPathsMatrices_def Let_def)

text \<open>A removal followed by the insertion of the same arc, in each regime.\<close>

lemma restore_allarcs:
  assumes "removeArc_allarcs g i j a = Inr g1" and "allarcs g ! a = (i, j)"
  shows "same_graph g (insertArc_allarcs g1 i j)"
proof -
  obtain g0 where r: "removeArc g i j = Inr g0" and a: "a < length (allarcs g)"
    and g1: "g1 = g0\<lparr>allarcs := swap_remove (allarcs g) a\<rparr>"
    using assms(1) by (auto simp: removeArc_allarcs_def split: sum.splits if_splits)
  have base: "same_graph g (insertArc g0 i j)"
    by (rule removeArc_insertArc [OF r])
  have "insertArc_allarcs g1 i j =
      (insertArc g0 i j)\<lparr>allarcs := swap_remove (allarcs g) a @ [(i, j)]\<rparr>"
    by (simp add: g1 insertArc_allarcs_def insertArc_allarcs_update)
  then show ?thesis
    using base mset_swap_remove_add [OF a assms(2)] by (simp add: same_graph_def)
qed

lemma wave_degree_restored:
  "wave_degree_update (g\<lparr>prev_wave_degree := wave_degree_update g i j (- 1)\<rparr>) i j 1 =
   prev_wave_degree g"
  by (auto simp: wave_degree_update_def)

lemma restore_allinnerarcs:
  assumes "removeArc_allinnerarcs g i j a = Inr g1" and "allinnerarcs g ! a = (i, j)"
  shows "same_graph g (insertArc_allinnerarcs g1 i j)"
proof -
  obtain g0 where r: "removeArc g i j = Inr g0" and a: "a < length (allinnerarcs g)"
    and g1: "g1 = g0\<lparr>num_inner_arcs := num_inner_arcs g - 1,
                     allinnerarcs := swap_remove (allinnerarcs g) a,
                     prev_wave_degree := wave_degree_update g i j (- 1)\<rparr>"
    using assms(1) by (auto simp: removeArc_allinnerarcs_def split: sum.splits if_splits)
  have base: "same_graph g (insertArc g0 i j)"
    by (rule removeArc_insertArc [OF r])
  have z: "zone g0 = zone g" using removeArc_other_fields [OF r] by simp
  have w: "wave_degree_update g1 i j 1 = prev_wave_degree g"
    using wave_degree_restored [of g i j] by (simp add: g1 wave_degree_update_def z)
  have "insertArc_allinnerarcs g1 i j =
      (insertArc g0 i j)\<lparr>num_inner_arcs := num_inner_arcs g - 1 + 1,
                          allinnerarcs := swap_remove (allinnerarcs g) a @ [(i, j)],
                          prev_wave_degree := wave_degree_update g1 i j 1\<rparr>"
    unfolding insertArc_allinnerarcs_def by (simp add: g1 insertArc_inner_update)
  then show ?thesis
    using base mset_swap_remove_add [OF a assms(2)] by (simp add: same_graph_def w)
qed

lemma restore_all_maxtermsender_arcs:
  assumes "removeArc_all_maxtermsender_arcs g i j a = Inr g1"
    and "all_maxtermsender_arcs g ! a = (i, j)"
  shows "same_graph g (insertArc_all_maxtermsender_arcs g1 i j)"
proof -
  obtain g0 where r: "removeArc g i j = Inr g0" and a: "a < length (all_maxtermsender_arcs g)"
    and g1: "g1 = g0\<lparr>num_maxtermsender_arcs := num_maxtermsender_arcs g - 1,
                     all_maxtermsender_arcs := swap_remove (all_maxtermsender_arcs g) a\<rparr>"
    using assms(1)
    by (auto simp: removeArc_all_maxtermsender_arcs_def split: sum.splits if_splits)
  have base: "same_graph g (insertArc g0 i j)"
    by (rule removeArc_insertArc [OF r])
  have "insertArc_all_maxtermsender_arcs g1 i j =
      (insertArc g0 i j)\<lparr>num_maxtermsender_arcs := num_maxtermsender_arcs g - 1 + 1,
          all_maxtermsender_arcs := swap_remove (all_maxtermsender_arcs g) a @ [(i, j)]\<rparr>"
    unfolding insertArc_all_maxtermsender_arcs_def
    by (simp add: g1 insertArc_maxtermsender_update)
  then show ?thesis
    using base mset_swap_remove_add [OF a assms(2)] by (simp add: same_graph_def)
qed

lemma restore_active:
  assumes "remove_active opts g i j a = Inr g1" and "active_list opts g ! a = (i, j)"
  shows "same_graph g (insert_active opts g1 i j)"
  using assms
  by (auto simp: remove_active_def insert_active_def active_list_def
        restore_allarcs restore_allinnerarcs restore_all_maxtermsender_arcs split: if_splits)

lemma same_graph_refl: "same_graph g g"
  by (simp add: same_graph_def)

lemma same_graph_trans: "same_graph g g' \<Longrightarrow> same_graph g' g'' \<Longrightarrow> same_graph g g''"
  by (simp add: same_graph_def)

text \<open>The index a delete move hands to the removal routine is that of the chosen arc.\<close>

lemma cond_delete_pick_entry:
  "cond_delete_pick g us = Inr (a, i, j, us') \<Longrightarrow> allinnerarcs g ! a = (i, j)"
  by (induction us) (auto simp: Let_def split: if_splits)

lemma ifd_select_entry:
  assumes "ifd_select opts w = Inr (a, i, j, w1)" and "isDelete w1"
  shows "active_list opts (w_graph w) ! a = (i, j)"
  using assms
  by (auto simp: ifd_select_def active_list_def Let_def
        split: if_splits sum.splits prod.splits list.splits dest: cond_delete_pick_entry)

text \<open>One proposal without moves, then a run of them.\<close>

lemma ifd_proposal_frame:
  assumes "ifd_proposal opts n funcs theta aux False w = Inr (p, w')"
  shows "same_graph (w_graph w) (w_graph w')"
proof -
  from assms show ?thesis
  proof (rule ifd_proposal_cases)
    fix a i j w1 g1
    assume sel: "ifd_select opts w = Inr (a, i, j, w1)"
      and kind: "del_move p = isDelete w1"
      and rem: "if isDelete w1 then remove_active opts (w_graph w1) i j a = Inr g1
                else g1 = w_graph w1"
      and gr: "w_graph w' =
         (if was_accepted p \<and> False
          then (if del_move p then g1 else insert_active opts g1 i j)
          else (if del_move p then insert_active opts g1 i j else g1))"
    have g: "w_graph w1 = w_graph w" using ifd_select_world [OF sel] by simp
    show ?thesis
    proof (cases "isDelete w1")
      case True
      have "active_list opts (w_graph w) ! a = (i, j)"
        using ifd_select_entry [OF sel True] .
      then have "same_graph (w_graph w) (insert_active opts g1 i j)"
        using rem True g by (intro restore_active) auto
      then show ?thesis using gr kind True by simp
    next
      case False
      then show ?thesis using gr kind rem g by (simp add: same_graph_refl)
    qed
  qed
qed

lemma ifd_run_frame:
  "ifd_run opts n funcs theta aux False k w = Inr (ps, w') \<Longrightarrow>
   same_graph (w_graph w) (w_graph w')"
proof (induction k arbitrary: w ps)
  case 0
  then show ?case by (simp add: same_graph_refl)
next
  case (Suc k)
  then show ?case
    by (auto split: sum.splits prod.splits
          dest!: ifd_proposal_frame intro: same_graph_trans)
qed

lemma same_graph_isArc: "same_graph g g' \<Longrightarrow> isArc g' i j = isArc g i j"
  by (metis isArc_def same_graph_def set_mset_mset)

lemma same_graph_empty: "same_graph g g' \<Longrightarrow> allarcs g = [] \<Longrightarrow> allarcs g' = []"
  by (simp add: same_graph_def)

text \<open>
  A call with \<open>performMove = False\<close> that returns hands back a graph of the same content,
  whatever was proposed, accepted or rejected: the same arcs, \<open>num_arcs\<close>, degrees,
  two-path counters, zones, terms and counts of the side lists, and the same entries in
  the neighbour lists and the flat arc lists. The order of the entries is that of the
  insertion and removal routines, whose bodies are not among the sources.
\<close>

lemma ifdSampler_restores_content:
  assumes "ifdSampler opts n funcs theta m False K aux w = Inr r"
  shows "same_graph (w_graph w) (w_graph (world_out r)) \<and>
         (\<forall>i j. isArc (w_graph (world_out r)) i j = isArc (w_graph w) i j)"
proof -
  obtain ps w' where run: "ifd_run opts n funcs theta aux False m w = Inr (ps, w')"
    and g: "w_graph (world_out r) = w_graph w'"
    using ifdSampler_run [OF assms] by blast
  have "same_graph (w_graph w) (w_graph (world_out r))"
    using ifd_run_frame [OF run] g by simp
  then show ?thesis
    using same_graph_isArc by blast
qed

section \<open>A call without moves on the empty graph\<close>

text \<open>
  Not every call returns. In the plain regime on a graph without arcs a proposal that
  returns is an add move that leaves the graph alone, and the flag afterwards says
  whether it was accepted.
\<close>

lemma plain_proposal_on_empty_graph:
  assumes "\<not> useConditionalEstimation opts" and "\<not> citationERGM opts"
    and "allarcs (w_graph w) = []"
    and "ifd_proposal opts n funcs theta aux False w = Inr (p, w')"
  shows "\<not> isDelete w \<and> \<not> del_move p \<and> w_graph w' = w_graph w \<and>
         isDelete w' = was_accepted p"
proof -
  have nd: "\<not> isDelete w"
    using plain_delete_without_arcs [OF assms(1,2) _ assms(3), of n funcs theta aux False]
      assms(4) by auto
  have nf: "\<not> forced_add opts w"
    using assms(2) by (simp add: forced_add_def)
  from assms(4) show ?thesis
  proof (rule ifd_proposal_cases)
    fix arcidx i j w1 g1
    assume sel: "ifd_select opts w = Inr (arcidx, i, j, w1)"
      and kind: "del_move p = isDelete w1"
      and rem: "if isDelete w1 then remove_active opts (w_graph w1) i j arcidx = Inr g1
                else g1 = w_graph w1"
      and flag: "isDelete w' = (del_move p \<noteq> was_accepted p)"
      and gr: "w_graph w' =
         (if was_accepted p \<and> False
          then (if del_move p then g1 else insert_active opts g1 i j)
          else (if del_move p then insert_active opts g1 i j else g1))"
    have w1: "w_graph w1 = w_graph w" "isDelete w1 = (isDelete w \<and> \<not> forced_add opts w)"
      using ifd_select_world [OF sel] by simp_all
    show ?thesis
      using nd kind rem flag gr w1 by simp
  qed
qed

text \<open>
  Once an add move was accepted there, the flag says delete and the arc list is still
  empty: the next proposal, in the same call or in the next one, reads the entry
  \<open>int_urand(0)\<close> of the empty array \<^verbatim>\<open>allarcs\<close> and hands what it finds to
  \<^verbatim>\<open>removeArc_allarcs\<close>.
\<close>

lemma accepted_add_on_empty_graph_then_fault:
  assumes "\<not> useConditionalEstimation opts" and "\<not> citationERGM opts"
    and "allarcs (w_graph w) = []"
    and "ifd_proposal opts n funcs theta aux False w = Inr (p, w')"
    and "was_accepted p"
  shows "ifd_proposal opts n' funcs' theta' aux' False w' = Inl Out_of_bounds \<or>
         ifd_proposal opts n' funcs' theta' aux' False w' = Inl Prng_exhausted"
proof -
  have "isDelete w'" and "allarcs (w_graph w') = []"
    using plain_proposal_on_empty_graph [OF assms(1-4)] assms(3,5) by simp_all
  then show ?thesis
    using plain_delete_without_arcs [OF assms(1,2)] by blast
qed

lemma call_with_pending_delete_on_empty_graph:
  assumes "\<not> useConditionalEstimation opts" and "\<not> citationERGM opts"
    and "allarcs (w_graph w) = []" and "isDelete w"
  shows "ifdSampler opts n funcs theta (Suc m) pm K aux w = Inl Out_of_bounds \<or>
         ifdSampler opts n funcs theta (Suc m) pm K aux w = Inl Prng_exhausted"
  using plain_delete_without_arcs [OF assms(1,2,4,3), of n funcs theta aux pm]
  by (auto simp: ifdSampler_def ifd_iteration_def)

text \<open>
  Claim C7, against the code. A call with \<open>performMove = False\<close> is to leave the graph as
  it was, and in particular the empty graph empty. On the empty graph on two nodes with
  the parameter Reciprocity, \<open>theta = 0\<close> and the auxiliary parameter 0 (the first call of
  Algorithm S), a call of one proposal accepts the add move \<open>0 \<rightarrow> 1\<close>, does not perform
  it, and hands back the empty graph with the flag at delete. The next call with
  \<open>performMove = False\<close>, on the world the first one left, does not hand back the graph: it
  reads \<^verbatim>\<open>allarcs[0]\<close> of the empty arc list. So Algorithm S with two iterations of one
  proposal ends there, on an empty graph.
\<close>

theorem ifdSampler_second_call_on_empty_graph:
  "map_sum id (\<lambda>r. (world_out r, aux_out r))
     (ifdSampler plain_opts 1 [changeReciprocity] [Fin 0] 1 False (Fin (1 / 10)) (Fin 0)
        (quiet_world False [0, 1 / 2, 1 / 2, 0] (allocate_digraph 2))) =
   Inr ((quiet_world True [0] (allocate_digraph 2))\<lparr>warnings := [Warning_IFD_imbalance]\<rparr>,
        Fin (1 / 10)) \<and>
   ifdSampler plain_opts 1 [changeReciprocity] [Fin 0] 1 False (Fin (1 / 10)) (Fin (1 / 10))
     ((quiet_world True [0] (allocate_digraph 2))\<lparr>warnings := [Warning_IFD_imbalance]\<rparr>) =
   Inl Out_of_bounds \<and>
   algorithm_S b (quiet_world False [0, 1 / 2, 1 / 2, 0] (allocate_digraph 2))
     1 [changeReciprocity] 2 1 (Fin (1 / 10)) True (Fin (1 / 10)) plain_opts =
   Inl Out_of_bounds"
  by (simp add: world_defs engine_defs sampler_defs changeReciprocity_def numeral_2_eq_2)

end
